theory Spec2Isabelle
  imports Main "HOL-Library.AList"
begin

section \<open>Constants (const.ts)\<close>

definition SERVER_PORT :: nat where
  "SERVER_PORT = 3000"

definition WORKSPACE_DIR_NAME :: string where
  "WORKSPACE_DIR_NAME = ''agent-workspace''"

text \<open>Times are milliseconds as returned by \<open>Date.now()\<close>: integers.\<close>

definition CONNECTION_TOKEN_TTL_MS :: int where
  "CONNECTION_TOKEN_TTL_MS = 5 * 60 * 1000"

section \<open>The token store (server.ts)\<close>

text \<open>
  \<open>type ConnectionToken = { value: string, createdAt: number, used: boolean }\<close>.
  The field \<open>value\<close> is written \<open>tokenValue\<close> here.
\<close>

record ConnectionToken =
  tokenValue :: string
  createdAt :: int
  used :: bool

text \<open>
  \<open>connectionTokens = new Map<string, ConnectionToken>()\<close>: a map from the token's value
  to the token. Nothing in the source depends on the map's iteration order.
\<close>

type_synonym token_store = "string \<rightharpoonup> ConnectionToken"

text \<open>
  \<open>generateConnectionToken\<close> reads the clock and 24 random bytes (as a hexadecimal
  string); both are parameters here. It stores the new token under its value, replacing
  an older token of the same value, and returns the value.
\<close>

definition generateConnectionToken ::
  "int \<Rightarrow> string \<Rightarrow> token_store \<Rightarrow> string \<times> token_store" where
  "generateConnectionToken now rnd tokens =
     (rnd, tokens(rnd \<mapsto> \<lparr>tokenValue = rnd, createdAt = now, used = False\<rparr>))"

text \<open>\<open>cleanupTokens\<close>: every entry that is used or older than the TTL is deleted.\<close>

definition cleanupTokens :: "int \<Rightarrow> token_store \<Rightarrow> token_store" where
  "cleanupTokens now tokens =
     (\<lambda>v. case tokens v of
            None \<Rightarrow> None
          | Some token \<Rightarrow>
              if used token \<or> now - createdAt token > CONNECTION_TOKEN_TTL_MS
              then None else Some token)"

text \<open>
  \<open>validateAndUseToken(value: string | null)\<close>. The clock is read twice, once inside
  \<open>cleanupTokens\<close> (\<open>now1\<close>) and once for \<open>isExpired\<close> (\<open>now2\<close>). \<open>!value\<close> holds
  for \<open>null\<close> and for the empty string.
\<close>

definition validateAndUseToken ::
  "int \<Rightarrow> int \<Rightarrow> string option \<Rightarrow> token_store \<Rightarrow> bool \<times> token_store" where
  "validateAndUseToken now1 now2 v tokens0 =
     (let tokens = cleanupTokens now1 tokens0 in
      case v of
        None \<Rightarrow> (False, tokens)
      | Some s \<Rightarrow>
          if s = [] then (False, tokens)
          else
            (case tokens s of
               None \<Rightarrow> (False, tokens)
             | Some token \<Rightarrow>
                 let isExpired = now2 - createdAt token > CONNECTION_TOKEN_TTL_MS in
                 if used token \<or> isExpired then (False, tokens(s := None))
                 else (True, tokens(s \<mapsto> token\<lparr>used := True\<rparr>))))"

text \<open>
  The calls the broker makes on the token store, in the order it makes them:
  \<open>Issue now rnd\<close> is a call of \<open>generateConnectionToken\<close>, \<open>Validate now1 now2 v\<close>
  one of \<open>validateAndUseToken\<close>. \<open>accepted t tokens cs\<close> counts the calls of \<open>cs\<close>,
  run from the store \<open>tokens\<close>, that presented \<open>t\<close> and returned true.
\<close>

datatype token_call = Issue int string | Validate int int "string option"

fun issues :: "string \<Rightarrow> token_call \<Rightarrow> bool" where
  "issues t (Issue now rnd) = (rnd = t)"
| "issues t (Validate now1 now2 v) = False"

fun accepted :: "string \<Rightarrow> token_store \<Rightarrow> token_call list \<Rightarrow> nat" where
  "accepted t tokens [] = 0"
| "accepted t tokens (Issue now rnd # cs) =
     accepted t (snd (generateConnectionToken now rnd tokens)) cs"
| "accepted t tokens (Validate now1 now2 v # cs) =
     (case validateAndUseToken now1 now2 v tokens of
        (ok, tokens') \<Rightarrow> (if ok \<and> v = Some t then 1 else 0) + accepted t tokens' cs)"

text \<open>A token is spent in a store when it is absent from it or marked used.\<close>

definition spent :: "string \<Rightarrow> token_store \<Rightarrow> bool" where
  "spent t tokens = (case tokens t of None \<Rightarrow> True | Some token \<Rightarrow> used token)"

section \<open>JavaScript values and objects\<close>

text \<open>
  The values that options and configuration payloads carry. Functions are opaque and
  stand by a name. An object that is spread or read by field name is a map from field
  names to values; an object that is only a value (\<open>JObj\<close>) lists its properties.
\<close>

datatype jsval =
    Undefined
  | Null
  | JBool bool
  | JNum int
  | JStr string
  | JArr "jsval list"
  | JObj "(string \<times> jsval) list"
  | JFun string

type_synonym obj = "string \<rightharpoonup> jsval"

fun truthy :: "jsval \<Rightarrow> bool" where
  "truthy Undefined = False"
| "truthy Null = False"
| "truthy (JBool b) = b"
| "truthy (JNum n) = (n \<noteq> 0)"
| "truthy (JStr s) = (s \<noteq> [])"
| "truthy (JArr xs) = True"
| "truthy (JObj kvs) = True"
| "truthy (JFun f) = True"

text \<open>\<open>a || b\<close>, \<open>ob.k\<close> and \<open>{...a, ...b}\<close>.\<close>

definition js_or :: "jsval \<Rightarrow> jsval \<Rightarrow> jsval" where
  "js_or a b = (if truthy a then a else b)"

definition getProp :: "obj \<Rightarrow> string \<Rightarrow> jsval" where
  "getProp ob k = (case ob k of None \<Rightarrow> Undefined | Some v \<Rightarrow> v)"

definition spread :: "obj \<Rightarrow> obj \<Rightarrow> obj" where
  "spread a b = a ++ b"

text \<open>\<open>tools.length > 0\<close> for the array (or absent) \<open>tools\<close>.\<close>

fun nonEmptyArray :: "jsval \<Rightarrow> bool" where
  "nonEmptyArray (JArr xs) = (xs \<noteq> [])"
| "nonEmptyArray v = False"

text \<open>\<open>{...v, k: x}\<close> for a value \<open>v\<close>: the properties of an object, with \<open>k\<close> set.\<close>

fun withProp :: "jsval \<Rightarrow> string \<Rightarrow> jsval \<Rightarrow> jsval" where
  "withProp (JObj kvs) k x = JObj (AList.update k x kvs)"
| "withProp v k x = JObj [(k, x)]"

text \<open>\<open>process.env.K\<close>: a string, or undefined.\<close>

definition envString :: "(string \<rightharpoonup> string) \<Rightarrow> string \<Rightarrow> jsval" where
  "envString penv k = (case penv k of None \<Rightarrow> Undefined | Some s \<Rightarrow> JStr s)"

section \<open>The options of the runtime stream (server.ts, processMessages)\<close>

text \<open>
  \<open>createSdkMcpServer\<close> belongs to the agent SDK; its result is kept as the record of
  its arguments.
\<close>

definition createSdkMcpServer :: "jsval \<Rightarrow> jsval" where
  "createSdkMcpServer tools =
     JObj [(''name'', JStr ''castari-agent''), (''version'', JStr ''1.0.0''),
           (''tools'', tools)]"

text \<open>
  \<open>let mcpServers = initialOptions.mcpServers || {}\<close>, extended by the server built from
  the custom tools when there are any. By its type \<open>mcpServers\<close> is an object.
\<close>

definition injectedMcpServers :: "obj \<Rightarrow> jsval" where
  "injectedMcpServers initialOptions =
     (let mcpServers = js_or (getProp initialOptions ''mcpServers'') (JObj []);
          tools = getProp initialOptions ''tools''
      in if truthy tools \<and> nonEmptyArray tools
         then withProp mcpServers ''castari-agent'' (createSdkMcpServer tools)
         else mcpServers)"

text \<open>The four fields the object literal sets before it spreads \<open>initialOptions\<close>.\<close>

definition libraryDefaults :: "string \<Rightarrow> obj" where
  "libraryDefaults workspaceDirectory =
     [''settingSources'' \<mapsto> JArr [JStr ''local''],
      ''cwd'' \<mapsto> JStr workspaceDirectory,
      ''canUseTool'' \<mapsto> JFun ''canUseTool'',
      ''stderr'' \<mapsto> JFun ''stderr'']"

text \<open>\<open>queryConfig.anthropicApiKey || process.env.ANTHROPIC_API_KEY\<close>.\<close>

definition runtimeApiKey :: "(string \<rightharpoonup> string) \<Rightarrow> obj \<Rightarrow> jsval" where
  "runtimeApiKey penv queryConfig =
     js_or (getProp queryConfig ''anthropicApiKey'') (envString penv ''ANTHROPIC_API_KEY'')"

text \<open>The last spread of the literal: \<open>{ env: {PATH, ANTHROPIC_API_KEY} }\<close> or \<open>{}\<close>.\<close>

definition injectedEnv :: "(string \<rightharpoonup> string) \<Rightarrow> obj \<Rightarrow> obj" where
  "injectedEnv penv queryConfig =
     (if truthy (runtimeApiKey penv queryConfig)
      then [''env'' \<mapsto> JObj [(''PATH'', envString penv ''PATH''),
                            (''ANTHROPIC_API_KEY'', runtimeApiKey penv queryConfig)]]
      else Map.empty)"

text \<open>
  The object literal \<open>options\<close> of \<open>processMessages\<close>, in the order it is written:
  the defaults, \<open>...initialOptions\<close>, \<open>mcpServers\<close>, \<open>...queryConfig\<close>, the injected
  environment.
\<close>

definition processMessages_options ::
  "string \<Rightarrow> (string \<rightharpoonup> string) \<Rightarrow> obj \<Rightarrow> obj \<Rightarrow> obj" where
  "processMessages_options workspaceDirectory penv initialOptions queryConfig =
     spread
       (spread
          (spread
             (spread (libraryDefaults workspaceDirectory) initialOptions)
             [''mcpServers'' \<mapsto> injectedMcpServers initialOptions])
          queryConfig)
       (injectedEnv penv queryConfig)"


section \<open>The connection broker (server.ts, serve)\<close>

text \<open>
  The module's variables. A socket is known by its identity, a number. The runtime
  stream, once started, is known by the options it was started with; the source never
  resets \<open>activeStream\<close>.
\<close>

type_synonym socket = nat

record 'm server_state =
  activeConnection :: "socket option"
  messageQueue :: "'m list"
  activeStream :: "obj option"
  queryConfig :: obj
  connectionTokens :: token_store

text \<open>
  What the handler reads of a request: the path, the verb, the outcome of
  \<open>req.json()\<close> (\<open>None\<close> when it rejects, the body not being JSON) and the query
  parameter \<open>token\<close> (\<open>None\<close> for \<open>null\<close>).
\<close>

record request =
  pathname :: string
  httpMethod :: string
  json :: "obj option"
  tokenParam :: "string option"

text \<open>
  What the handler reads of its surroundings: the clock (first and second reading), the
  random bytes, and whether \<open>server.upgrade(req)\<close> succeeds.
\<close>

record fetch_env =
  clock1 :: int
  clock2 :: int
  randomHex :: string
  upgradeOk :: bool

datatype response =
    ConfigAccepted obj string
  | InvalidJson
  | CurrentConfig obj
  | Unauthorized
  | Conflict
  | NotFound
  | Upgraded

text \<open>The status of each response; an upgraded request has no response.\<close>

fun status :: "response \<Rightarrow> nat option" where
  "status (ConfigAccepted config connectionToken) = Some 200"
| "status InvalidJson = Some 400"
| "status (CurrentConfig config) = Some 200"
| "status Unauthorized = Some 401"
| "status Conflict = Some 409"
| "status NotFound = Some 404"
| "status Upgraded = None"

text \<open>The \<open>fetch\<close> handler of \<open>Bun.serve\<close>.\<close>

definition fetch ::
  "fetch_env \<Rightarrow> request \<Rightarrow> 'm server_state \<Rightarrow> response \<times> 'm server_state" where
  "fetch env req s =
     (if pathname req = ''/config'' \<and> httpMethod req = ''POST'' then
        (case json req of
           Some config \<Rightarrow>
             (let s1 = s\<lparr>queryConfig := config\<rparr>;
                  (connectionToken, tokens) =
                     generateConnectionToken (clock1 env) (randomHex env) (connectionTokens s1)
              in (ConfigAccepted (queryConfig s1) connectionToken,
                  s1\<lparr>connectionTokens := tokens\<rparr>))
         | None \<Rightarrow> (InvalidJson, s))
      else if pathname req = ''/config'' \<and> httpMethod req = ''GET'' then
        (CurrentConfig (queryConfig s), s)
      else if pathname req = ''/ws'' then
        (let (valid, tokens) =
               validateAndUseToken (clock1 env) (clock2 env) (tokenParam req)
                 (connectionTokens s);
             s1 = s\<lparr>connectionTokens := tokens\<rparr>
         in if \<not> valid then (Unauthorized, s1)
            else if activeConnection s1 \<noteq> None then (Conflict, s1)
            else if upgradeOk env then (Upgraded, s1)
            else (NotFound, s1))
      else (NotFound, s))"

text \<open>
  The websocket handlers \<open>open\<close> and \<open>close\<close>. \<open>open\<close> registers the socket, starts the
  runtime stream if none was ever started (\<open>processMessages\<close> assigns \<open>activeStream\<close>
  before its first suspension) and sends \<open>connected\<close> on the socket.
\<close>

datatype WSOutputMessage = Connected | Info string | SdkMessage jsval | ErrorMessage string

definition ws_open ::
  "string \<Rightarrow> (string \<rightharpoonup> string) \<Rightarrow> obj \<Rightarrow> socket \<Rightarrow> 'm server_state \<Rightarrow>
   (socket \<times> WSOutputMessage) list \<times> 'm server_state" where
  "ws_open workspaceDirectory penv initialOptions ws s =
     (let s1 = s\<lparr>activeConnection := Some ws\<rparr>;
          s2 = (if activeStream s1 = None
                then s1\<lparr>activeStream :=
                       Some (processMessages_options workspaceDirectory penv initialOptions
                               (queryConfig s1))\<rparr>
                else s1)
      in ([(ws, Connected)], s2))"

definition ws_close :: "socket \<Rightarrow> 'm server_state \<Rightarrow> 'm server_state" where
  "ws_close ws s =
     (if activeConnection s = Some ws then s\<lparr>activeConnection := None\<rparr> else s)"

section \<open>The drain generator (server.ts, generateMessages)\<close>

text \<open>
  The body of the async generator is suspended either at \<open>yield\<close> (or not yet started),
  where the consumer's \<open>next()\<close> resumes it, or at the \<open>await\<close> of the 10 ms timer,
  where the timer resumes it. Either way it continues at the test of the inner
  \<open>while\<close> loop.
\<close>

datatype gen_point = Idle | Waiting

text \<open>
  One run of the body from the test of the inner loop to its next suspension, with
  \<open>requests\<close> calls of \<open>next()\<close> outstanding, the queue, and the messages yielded so
  far. On the empty queue the body awaits the timer. Otherwise it shifts the first
  message and yields it, which answers the oldest request; the body goes on while more
  requests are outstanding. The elements of the queue are \<open>SDKUserMessage\<close> objects, so
  the test \<open>if (message)\<close> holds for each.
\<close>

fun generateMessages ::
  "nat \<Rightarrow> 'm list \<Rightarrow> 'm list \<Rightarrow> 'm list \<times> gen_point \<times> nat \<times> 'm list" where
  "generateMessages requests [] out = ([], Waiting, requests, out)"
| "generateMessages requests (message # rest) out =
     (if requests \<le> 1 then (rest, Idle, 0, out @ [message])
      else generateMessages (requests - 1) rest (out @ [message]))"

text \<open>
  The queue, the generator and its consumer (the runtime's prompt channel): \<open>prompt\<close>
  lists the messages the runtime has received, in the order it received them.
\<close>

record 'm bridge =
  inputQueue :: "'m list"
  genPoint :: gen_point
  requests :: nat
  prompt :: "'m list"

definition resumeBody :: "nat \<Rightarrow> 'm bridge \<Rightarrow> 'm bridge" where
  "resumeBody n b =
     (case generateMessages n (inputQueue b) (prompt b) of
        (q, p, r, out) \<Rightarrow> \<lparr>inputQueue = q, genPoint = p, requests = r, prompt = out\<rparr>)"

text \<open>
  Modelled from the spec: \<open>handleMessage\<close> (message-handler.ts) is not among the
  sources; the specification says that each input message received on the transport is
  appended to the Input Queue.
\<close>

definition enqueue :: "'m \<Rightarrow> 'm list \<Rightarrow> 'm list" where
  "enqueue m q = q @ [m]"

text \<open>
  The events of the single thread, in any interleaving: a message is enqueued, the
  runtime calls \<open>next()\<close> (a call made while the body awaits the timer waits in
  line), the timer fires.
\<close>

datatype 'm bridge_event = Enqueue 'm | Next | TimerFires

fun step :: "'m bridge_event \<Rightarrow> 'm bridge \<Rightarrow> 'm bridge" where
  "step (Enqueue m) b = b\<lparr>inputQueue := enqueue m (inputQueue b)\<rparr>"
| "step Next b =
     (if genPoint b = Waiting then b\<lparr>requests := requests b + 1\<rparr>
      else resumeBody (requests b + 1) b)"
| "step TimerFires b =
     (if genPoint b = Waiting then resumeBody (requests b) b else b)"

definition run :: "'m bridge_event list \<Rightarrow> 'm bridge \<Rightarrow> 'm bridge" where
  "run es b = fold step es b"

definition initialBridge :: "'m bridge" where
  "initialBridge = \<lparr>inputQueue = [], genPoint = Idle, requests = 0, prompt = []\<rparr>"

text \<open>The messages submitted by a schedule, in submission order.\<close>

fun enqueued :: "'m bridge_event list \<Rightarrow> 'm list" where
  "enqueued [] = []"
| "enqueued (Enqueue m # es) = m # enqueued es"
| "enqueued (e # es) = enqueued es"

text \<open>\<open>n\<close> rounds in which the runtime asks for a message and the timer fires.\<close>

definition pulls :: "nat \<Rightarrow> 'm bridge_event list" where
  "pulls n = concat (replicate n [Next, TimerFires])"

section \<open>The client (client.ts)\<close>

definition DEFAULT_LOCAL_URL :: string where
  "DEFAULT_LOCAL_URL = ''http://localhost:3000''"

definition DEFAULT_PLATFORM_URL :: string where
  "DEFAULT_PLATFORM_URL = ''https://castari-api-12511-04c55b73-g4p2s9om.onporter.run''"

subsection \<open>Strings\<close>

text \<open>
  \<open>s.startsWith(p)\<close>, \<open>s.includes(p)\<close>, \<open>s.replace(p, r)\<close> for a string pattern (the
  first occurrence only, wherever it stands) and \<open>s.replace(/\/$/, '')\<close>.
\<close>

fun startsWith :: "string \<Rightarrow> string \<Rightarrow> bool" where
  "startsWith s [] = True"
| "startsWith [] (p # ps) = False"
| "startsWith (c # cs) (p # ps) = (c = p \<and> startsWith cs ps)"

fun js_includes :: "string \<Rightarrow> string \<Rightarrow> bool" where
  "js_includes [] p = (p = [])"
| "js_includes (c # cs) p = (startsWith (c # cs) p \<or> js_includes cs p)"

fun replaceFirst :: "string \<Rightarrow> string \<Rightarrow> string \<Rightarrow> string" where
  "replaceFirst p r [] = (if p = [] then r else [])"
| "replaceFirst p r (c # cs) =
     (if startsWith (c # cs) p then r @ drop (length p) (c # cs)
      else c # replaceFirst p r cs)"

definition stripTrailingSlash :: "string \<Rightarrow> string" where
  "stripTrailingSlash s = (if s \<noteq> [] \<and> last s = CHR ''/'' then butlast s else s)"

text \<open>
  An optional string is truthy when it is present and not empty; \<open>a || b\<close> on optional
  strings, and \<open>a || d\<close> with a string literal \<open>d\<close>.
\<close>

definition truthyStr :: "string option \<Rightarrow> bool" where
  "truthyStr x = (case x of None \<Rightarrow> False | Some s \<Rightarrow> s \<noteq> [])"

definition str_or :: "string option \<Rightarrow> string option \<Rightarrow> string option" where
  "str_or a b = (if truthyStr a then a else b)"

definition orDefault :: "string option \<Rightarrow> string \<Rightarrow> string" where
  "orDefault a d = (case a of None \<Rightarrow> d | Some s \<Rightarrow> if s \<noteq> [] then s else d)"

subsection \<open>Data\<close>

text \<open>
  \<open>ClientOptions\<close> without \<open>debug\<close>: the console output that \<open>debug\<close> switches on is
  left out throughout.
\<close>

record ClientOptions =
  connectionUrl :: "string option"
  anthropicApiKey :: "string option"
  clientId :: "string option"
  platformApiKey :: "string option"
  snapshot :: "string option"
  labels :: "(string \<times> string) list option"
  volume :: "string option"
  platformUrl :: "string option"
  resume :: "string option"
  useProxy :: "bool option"
  agents :: jsval
  allowedTools :: jsval
  systemPrompt :: jsval
  model :: jsval

text \<open>
  \<open>ConnectionDetails\<close>. The only cleanup closure the source builds is
  \<open>() => this.stop({ delete: true })\<close>, so \<open>cleanup\<close> says whether it is there.
\<close>

record ConnectionDetails =
  configUrl :: string
  wsUrl :: string
  authHeaders :: "(string \<times> string) list option"
  authParams :: "(string \<times> string) list option"
  cleanup :: bool

text \<open>
  The URL a WebSocket is opened on: \<open>connection.wsUrl\<close>, the joiner and the query
  parameters, which \<open>URLSearchParams\<close> serialises.
\<close>

record WebSocketTarget =
  wsBase :: string
  wsJoiner :: string
  wsParams :: "(string \<times> string) list"

text \<open>The fields of \<open>CastariClient\<close> that \<open>start\<close> and \<open>stop\<close> read or write.\<close>

record CastariClient =
  ws :: "WebSocketTarget option"
  options :: ClientOptions
  sandboxId :: "string option"
  resolvedClientId :: "string option"
  resolvedPlatformApiKey :: "string option"

record ConfigPayload =
  payloadApiKey :: string
  payloadAgents :: jsval
  payloadAllowedTools :: jsval
  payloadSystemPrompt :: jsval
  payloadModel :: jsval
  payloadResume :: "string option"

text \<open>
  The bodies of the three requests the client makes: \<open>/sandbox/start\<close> (snapshot,
  labels, volume, clientId), the configuration payload, and \<open>/sandbox/stop\<close>
  (sandboxId, delete, clientId).
\<close>

datatype request_body =
    StartSandboxBody "string option" "(string \<times> string) list option" "string option"
      "string option"
  | ConfigBody ConfigPayload
  | StopSandboxBody "string option" "bool option" "string option"

text \<open>What the client does to the outside, in order.\<close>

datatype effect =
    HttpPost string "(string \<times> string) list" request_body
  | Sleep nat
  | NewWebSocket WebSocketTarget
  | WsClose
  | ConsoleError string

text \<open>
  What \<open>fetch\<close> gives back: a rejection (a network-level failure) or a response, with
  what \<open>text()\<close> resolves to (\<open>None\<close> when it rejects, the body being unreadable) and
  what \<open>json()\<close> resolves to, as the source's type assertion reads it (\<open>None\<close> when it
  rejects).
\<close>

record 'j http_response =
  ok :: bool
  httpStatus :: nat
  bodyText :: "string option"
  bodyJson :: "'j option"

datatype 'j fetch_result = NetworkError string | Response "'j http_response"

record SandboxDescriptor =
  sandboxIdent :: string
  sandboxUrl :: string
  proxyUrl :: "string option"
  sandboxAuthHeaders :: "(string \<times> string) list option"
  sandboxAuthParams :: "(string \<times> string) list option"

record ConfigReply =
  connectionToken :: "string option"

datatype client_error =
    ApiKeyRequired
  | ClientIdRequired
  | FetchRejected string
  | StartSandboxFailed string
  | ConfigureFailed "nat option" string
  | BodyRejected
  | JsonRejected
  | NoConnectionToken
  | WebSocketFailed

text \<open>
  The surroundings of one client: \<open>process.env\<close>, the platform's answers, the
  configuration endpoint's answer to each attempt (numbered from 1), and whether the
  WebSocket opens.
\<close>

record client_env =
  processEnv :: "string \<rightharpoonup> string"
  startSandboxResult :: "SandboxDescriptor fetch_result"
  configResult :: "nat \<Rightarrow> ConfigReply fetch_result"
  stopSandboxResult :: "unit fetch_result"
  webSocketOpens :: bool

text \<open>
  An operation of the client ends with a thrown error (\<open>Inl\<close>) or a result, after some
  effects, and leaves the client's fields as returned.
\<close>

type_synonym 'a outcome = "(client_error + 'a) \<times> effect list \<times> CastariClient"

subsection \<open>stop\<close>

text \<open>\<open>{ ...a, ...b }\<close> on headers and \<open>URLSearchParams.set\<close> on query parameters.\<close>

definition mergeHeaders ::
  "(string \<times> string) list \<Rightarrow> (string \<times> string) list \<Rightarrow> (string \<times> string) list" where
  "mergeHeaders a b = fold (\<lambda>(k, v). AList.update k v) b a"

definition bearer :: "string option \<Rightarrow> (string \<times> string) list" where
  "bearer key =
     (case key of
        None \<Rightarrow> []
      | Some k \<Rightarrow> if k \<noteq> [] then [(''Authorization'', ''Bearer '' @ k)] else [])"

definition platformBase :: "(string \<rightharpoonup> string) \<Rightarrow> CastariClient \<Rightarrow> string" where
  "platformBase penv c =
     stripTrailingSlash
       (orDefault (str_or (platformUrl (options c)) (penv ''CASTARI_PLATFORM_URL''))
          DEFAULT_PLATFORM_URL)"

definition stopRequest ::
  "(string \<rightharpoonup> string) \<Rightarrow> bool option \<Rightarrow> CastariClient \<Rightarrow> effect" where
  "stopRequest penv deleteFlag c =
     (let clientId = str_or (str_or (resolvedClientId c) (clientId (options c)))
                       (penv ''CASTARI_CLIENT_ID'');
          key = str_or (str_or (resolvedPlatformApiKey c) (platformApiKey (options c)))
                  (penv ''CASTARI_API_KEY'')
      in HttpPost (platformBase penv c @ ''/sandbox/stop'')
           (mergeHeaders [(''Content-Type'', ''application/json'')] (bearer key))
           (StopSandboxBody (sandboxId c) deleteFlag clientId))"

text \<open>
  The \<open>try\<close> block of \<open>stop\<close>: \<open>Inl\<close> is an exception thrown inside it (the rejection of
  \<open>fetch\<close>, or of \<open>response.text()\<close>), which the \<open>catch\<close> clause of \<open>stop\<close> receives.
\<close>

definition stopTry ::
  "(string \<rightharpoonup> string) \<Rightarrow> unit fetch_result \<Rightarrow> bool option \<Rightarrow> CastariClient \<Rightarrow>
   (string + unit) \<times> effect list" where
  "stopTry penv result deleteFlag c =
     (case result of
        NetworkError err \<Rightarrow> (Inl err, [stopRequest penv deleteFlag c])
      | Response response \<Rightarrow>
          if \<not> ok response
          then (case bodyText response of
                  None \<Rightarrow> (Inl ''text() rejected'', [stopRequest penv deleteFlag c])
                | Some errorText \<Rightarrow>
                    (Inr (), [stopRequest penv deleteFlag c,
                              ConsoleError (''Failed to stop sandbox: '' @ errorText)]))
          else (Inr (), [stopRequest penv deleteFlag c]))"

text \<open>
  \<open>stop(options)\<close>, with \<open>options.delete\<close> as \<open>deleteFlag\<close> (\<open>Some True\<close> when the caller
  passes nothing). It assigns to no field of the client.
\<close>

definition stop ::
  "(string \<rightharpoonup> string) \<Rightarrow> unit fetch_result \<Rightarrow> bool option \<Rightarrow> CastariClient \<Rightarrow>
   unit outcome" where
  "stop penv result deleteFlag c =
     (let closing = (if ws c \<noteq> None then [WsClose] else []) in
      if truthyStr (sandboxId c) then
        (case stopTry penv result deleteFlag c of
           (Inl err, effects) \<Rightarrow>
             (Inr (), closing @ effects @ [ConsoleError ''Failed to call stop endpoint:''], c)
         | (Inr u, effects) \<Rightarrow> (Inr (), closing @ effects, c))
      else (Inr (), closing, c))"

text \<open>Two calls of \<open>stop\<close> in a row, the second on the client the first leaves.\<close>

definition stopTwice ::
  "(string \<rightharpoonup> string) \<Rightarrow> unit fetch_result \<Rightarrow> unit fetch_result \<Rightarrow> bool option \<Rightarrow>
   CastariClient \<Rightarrow> unit outcome \<times> unit outcome" where
  "stopTwice penv result1 result2 deleteFlag c =
     (let first = stop penv result1 deleteFlag c
      in (first, stop penv result2 deleteFlag (snd (snd first))))"

text \<open>The sandbox identifiers that the stop requests of a trace carry, and what it logs.\<close>

fun stopRequestIds :: "effect list \<Rightarrow> string option list" where
  "stopRequestIds [] = []"
| "stopRequestIds (HttpPost url headers (StopSandboxBody ident deleteFlag client) # es) =
     ident # stopRequestIds es"
| "stopRequestIds (e # es) = stopRequestIds es"

fun consoleErrors :: "effect list \<Rightarrow> string list" where
  "consoleErrors [] = []"
| "consoleErrors (ConsoleError msg # es) = msg # consoleErrors es"
| "consoleErrors (e # es) = consoleErrors es"

subsection \<open>Connection setup\<close>

text \<open>
  The two chains of \<open>replace\<close> that \<open>setupLocalConnection\<close> applies to the base URL:
  \<open>.replace('ws://', 'http://').replace('wss://', 'https://')\<close> for the configuration
  endpoint and \<open>.replace('http://', 'ws://').replace('https://', 'wss://')\<close> for the
  transport.
\<close>

definition toHttpScheme :: "string \<Rightarrow> string" where
  "toHttpScheme baseUrl =
     replaceFirst ''wss://'' ''https://'' (replaceFirst ''ws://'' ''http://'' baseUrl)"

definition toWsScheme :: "string \<Rightarrow> string" where
  "toWsScheme baseUrl =
     replaceFirst ''https://'' ''wss://'' (replaceFirst ''http://'' ''ws://'' baseUrl)"

definition setupLocalConnection :: "CastariClient \<Rightarrow> ConnectionDetails" where
  "setupLocalConnection c =
     (let baseUrl = stripTrailingSlash (orDefault (connectionUrl (options c)) DEFAULT_LOCAL_URL)
      in \<lparr>configUrl = toHttpScheme baseUrl @ ''/config'',
          wsUrl = toWsScheme baseUrl @ ''/ws'',
          authHeaders = None,
          authParams = None,
          cleanup = False\<rparr>)"

text \<open>The request that provisions a sandbox.\<close>

definition startRequest :: "(string \<rightharpoonup> string) \<Rightarrow> CastariClient \<Rightarrow> effect" where
  "startRequest penv c =
     HttpPost (platformBase penv c @ ''/sandbox/start'')
       (mergeHeaders [(''Content-Type'', ''application/json'')]
          (bearer (resolvedPlatformApiKey c)))
       (StartSandboxBody (snapshot (options c)) (labels (options c)) (volume (options c))
          (resolvedClientId c))"

text \<open>\<open>this.options.useProxy ?? (process.env.CASTARI_USE_PROXY !== 'false')\<close>.\<close>

definition proxyEnabled :: "(string \<rightharpoonup> string) \<Rightarrow> CastariClient \<Rightarrow> bool" where
  "proxyEnabled penv c =
     (case useProxy (options c) of
        Some b \<Rightarrow> b
      | None \<Rightarrow> penv ''CASTARI_USE_PROXY'' \<noteq> Some ''false'')"

text \<open>
  \<open>setupPlatformConnection\<close>. A rejection of \<open>fetch\<close>, of \<open>response.text()\<close> or of
  \<open>response.json()\<close> leaves the function as a thrown error. In direct mode the transport URL is built by
  \<open>.replace('https://', 'wss://').replace('http://', 'ws://')\<close>.
\<close>

definition setupPlatformConnection ::
  "client_env \<Rightarrow> CastariClient \<Rightarrow> ConnectionDetails outcome" where
  "setupPlatformConnection env c =
     (if \<not> truthyStr (resolvedClientId c) then (Inl ClientIdRequired, [], c)
      else
        let platformUrl = platformBase (processEnv env) c;
            request = startRequest (processEnv env) c
        in case startSandboxResult env of
             NetworkError err \<Rightarrow> (Inl (FetchRejected err), [request], c)
           | Response response \<Rightarrow>
               if \<not> ok response
               then (case bodyText response of
                       None \<Rightarrow> (Inl BodyRejected, [request], c)
                     | Some errorText \<Rightarrow> (Inl (StartSandboxFailed errorText), [request], c))
               else
                 (case bodyJson response of
                    None \<Rightarrow> (Inl JsonRejected, [request], c)
                  | Some d \<Rightarrow>
                      let c1 = c\<lparr>sandboxId := Some (sandboxIdent d)\<rparr> in
                      if proxyEnabled (processEnv env) c1 \<and> truthyStr (proxyUrl d)
                      then
                        (Inr \<lparr>configUrl =
                                platformUrl @ ''/proxy/'' @ sandboxIdent d @ ''/config'',
                              wsUrl = the (proxyUrl d),
                              authHeaders = None,
                              authParams = None,
                              cleanup = True\<rparr>,
                         [request], c1)
                      else
                        let baseUrl = stripTrailingSlash (sandboxUrl d)
                        in (Inr \<lparr>configUrl = toHttpScheme baseUrl @ ''/config'',
                                  wsUrl =
                                    replaceFirst ''http://'' ''ws://''
                                      (replaceFirst ''https://'' ''wss://'' baseUrl)
                                      @ ''/ws'',
                                  authHeaders = sandboxAuthHeaders d,
                                  authParams = sandboxAuthParams d,
                                  cleanup = True\<rparr>,
                            [request], c1)))"

subsection \<open>start\<close>

definition maxConfigAttempts :: nat where
  "maxConfigAttempts = 5"

text \<open>
  \<open>configResponse && configResponse.ok\<close>, and the \<open>.catch\<close> that turns a rejection of
  \<open>fetch\<close> into \<open>null\<close>.
\<close>

definition responseOk :: "'j http_response option \<Rightarrow> bool" where
  "responseOk configResponse = (case configResponse of None \<Rightarrow> False | Some r \<Rightarrow> ok r)"

definition caught :: "'j fetch_result \<Rightarrow> 'j http_response option" where
  "caught result = (case result of NetworkError err \<Rightarrow> None | Response r \<Rightarrow> Some r)"

text \<open>
  The loop \<open>for (let attempt = 1; attempt <= maxConfigAttempts; attempt++)\<close>, from the
  test of \<open>attempt\<close> on, with the current value of \<open>configResponse\<close>: each attempt posts,
  leaves the loop on an ok response, and otherwise sleeps 3000 ms unless it was the last.
\<close>

function configLoop ::
  "effect \<Rightarrow> (nat \<Rightarrow> 'j fetch_result) \<Rightarrow> nat \<Rightarrow> 'j http_response option \<Rightarrow>
   'j http_response option \<times> effect list" where
  "configLoop post results attempt configResponse =
     (if attempt \<le> maxConfigAttempts then
        (let configResponse' = caught (results attempt) in
         if responseOk configResponse' then (configResponse', [post])
         else
           (case configLoop post results (attempt + 1) configResponse' of
              (final, effects) \<Rightarrow>
                (final,
                 post # (if attempt < maxConfigAttempts then [Sleep 3000] else []) @ effects)))
      else (configResponse, []))"
  by pat_completeness auto
termination
  by (relation "measure (\<lambda>(post, results, attempt, configResponse).
                  maxConfigAttempts + 1 - attempt)") auto

text \<open>\<open>if (connection.cleanup) await connection.cleanup()\<close>; \<open>stop\<close> changes no field.\<close>

definition runCleanup :: "client_env \<Rightarrow> ConnectionDetails \<Rightarrow> CastariClient \<Rightarrow> effect list" where
  "runCleanup env connection c =
     (if cleanup connection
      then fst (snd (stop (processEnv env) (stopSandboxResult env) (Some True) c))
      else [])"

text \<open>The pieces of \<open>start\<close>, in the order of the source.\<close>

definition apiKey :: "client_env \<Rightarrow> CastariClient \<Rightarrow> string option" where
  "apiKey env c =
     str_or (anthropicApiKey (options c)) (processEnv env ''ANTHROPIC_API_KEY'')"

definition resolveIds :: "client_env \<Rightarrow> CastariClient \<Rightarrow> CastariClient" where
  "resolveIds env c =
     c\<lparr>resolvedClientId :=
          str_or (str_or (clientId (options c)) (processEnv env ''CASTARI_CLIENT_ID'')) None,
        resolvedPlatformApiKey :=
          str_or (str_or (platformApiKey (options c)) (processEnv env ''CASTARI_API_KEY''))
            None\<rparr>"

definition resolveConnection :: "client_env \<Rightarrow> CastariClient \<Rightarrow> ConnectionDetails outcome" where
  "resolveConnection env c =
     (if truthyStr (connectionUrl (options c))
      then (Inr (setupLocalConnection c), [], c)
      else setupPlatformConnection env c)"

definition configPost :: "string \<Rightarrow> ConnectionDetails \<Rightarrow> CastariClient \<Rightarrow> effect" where
  "configPost key connection c =
     (let configPayload =
            \<lparr>payloadApiKey = key,
             payloadAgents = agents (options c),
             payloadAllowedTools = allowedTools (options c),
             payloadSystemPrompt = systemPrompt (options c),
             payloadModel = model (options c),
             payloadResume = resume (options c)\<rparr>;
          configHeaders =
            mergeHeaders [(''Content-Type'', ''application/json'')]
              (case authHeaders connection of None \<Rightarrow> [] | Some h \<Rightarrow> h)
      in HttpPost (configUrl connection) configHeaders (ConfigBody configPayload))"

text \<open>
  The branch \<open>if (!configResponse || !configResponse.ok)\<close> after the loop. The body of
  the last response is read first, by \<open>await configResponse.text()\<close> outside any \<open>try\<close>:
  if that rejects, \<open>start\<close> throws the rejection there, before the cleanup.
\<close>

definition configureFailed ::
  "client_env \<Rightarrow> ConnectionDetails \<Rightarrow> CastariClient \<Rightarrow> ConfigReply http_response option \<Rightarrow>
   unit outcome" where
  "configureFailed env connection c configResponse =
     (case configResponse of
        None \<Rightarrow>
          (Inl (ConfigureFailed None ''no response''), runCleanup env connection c, c)
      | Some r \<Rightarrow>
          (case bodyText r of
             None \<Rightarrow> (Inl BodyRejected, [], c)
           | Some errorText \<Rightarrow>
               (Inl (ConfigureFailed (Some (httpStatus r)) errorText),
                runCleanup env connection c, c)))"

text \<open>
  The URL of the transport: \<open>connection.wsUrl\<close>, the joiner, and the query parameters
  (\<open>token\<close> first, then the platform's \<open>authParams\<close>).
\<close>

definition transportTarget :: "ConnectionDetails \<Rightarrow> string \<Rightarrow> WebSocketTarget" where
  "transportTarget connection token =
     \<lparr>wsBase = wsUrl connection,
      wsJoiner = (if CHR ''?'' \<in> set (wsUrl connection) then ''&'' else ''?''),
      wsParams =
        mergeHeaders [(''token'', token)]
          (case authParams connection of None \<Rightarrow> [] | Some p \<Rightarrow> p)\<rparr>"

text \<open>
  The rest of \<open>start\<close> after an ok response: the token is read from the reply, the
  transport URL is built and the WebSocket is opened; \<open>onerror\<close> writes to the error
  console and rejects.
\<close>

definition openTransport ::
  "client_env \<Rightarrow> ConnectionDetails \<Rightarrow> CastariClient \<Rightarrow> ConfigReply http_response \<Rightarrow>
   unit outcome" where
  "openTransport env connection c configResponse =
     (case bodyJson configResponse of
        None \<Rightarrow> (Inl JsonRejected, [], c)
      | Some reply \<Rightarrow>
          if \<not> truthyStr (connectionToken reply)
          then (Inl NoConnectionToken, runCleanup env connection c, c)
          else
            let target = transportTarget connection (the (connectionToken reply)) in
            if webSocketOpens env
            then (Inr (), [NewWebSocket target], c\<lparr>ws := Some target\<rparr>)
            else (Inl WebSocketFailed,
                  [NewWebSocket target, ConsoleError ''WebSocket error:''],
                  c\<lparr>ws := Some target\<rparr>))"

definition start :: "client_env \<Rightarrow> CastariClient \<Rightarrow> unit outcome" where
  "start env c0 =
     (if \<not> truthyStr (apiKey env c0) then (Inl ApiKeyRequired, [], c0)
      else
        case resolveConnection env (resolveIds env c0) of
          (Inl err, setupEffects, c) \<Rightarrow> (Inl err, setupEffects, c)
        | (Inr connection, setupEffects, c) \<Rightarrow>
            (case configLoop (configPost (the (apiKey env c0)) connection c)
                    (configResult env) 1 None of
               (configResponse, configEffects) \<Rightarrow>
                 (case (if \<not> responseOk configResponse
                        then configureFailed env connection c configResponse
                        else openTransport env connection c (the configResponse)) of
                    (result, effects, c') \<Rightarrow>
                      (result, setupEffects @ configEffects @ effects, c'))))"

text \<open>
  An attempt fails on a network-level failure and on a response that is not ok.
  \<open>attempts post k\<close> is the trace of \<open>k\<close> attempts: \<open>k\<close> posts with a sleep of 3000 ms
  between two of them and none after the last.
\<close>

definition failed :: "'j fetch_result \<Rightarrow> bool" where
  "failed result = (\<not> responseOk (caught result))"

definition attempts :: "effect \<Rightarrow> nat \<Rightarrow> effect list" where
  "attempts post k = post # concat (replicate (k - 1) [Sleep 3000, post])"

text \<open>
  The first attempt that does not fail, if one of the five does not; the number of
  attempts the loop makes; and the token that \<open>start\<close> reads, if it gets to read one:
  the \<open>connectionToken\<close> of the reply to the first attempt that did not fail, when the
  reply is JSON and the token is not empty.
\<close>

definition firstSuccess :: "(nat \<Rightarrow> 'j fetch_result) \<Rightarrow> nat option" where
  "firstSuccess results = List.find (\<lambda>k. \<not> failed (results k)) [1..<6]"

definition attemptsMade :: "(nat \<Rightarrow> 'j fetch_result) \<Rightarrow> nat" where
  "attemptsMade results = (case firstSuccess results of Some k \<Rightarrow> k | None \<Rightarrow> 5)"

definition tokenRead :: "(nat \<Rightarrow> ConfigReply fetch_result) \<Rightarrow> string option" where
  "tokenRead results =
     (case firstSuccess results of
        None \<Rightarrow> None
      | Some k \<Rightarrow>
          (case bodyJson (the (caught (results k))) of
             None \<Rightarrow> None
           | Some reply \<Rightarrow>
               if truthyStr (connectionToken reply) then connectionToken reply else None))"

text \<open>
  Of a trace: the URLs of its configuration posts, the WebSockets it opens, and the URLs
  of its provisioning requests.
\<close>

fun configTargets :: "effect list \<Rightarrow> string list" where
  "configTargets [] = []"
| "configTargets (HttpPost url headers (ConfigBody payload) # es) = url # configTargets es"
| "configTargets (e # es) = configTargets es"

fun webSockets :: "effect list \<Rightarrow> WebSocketTarget list" where
  "webSockets [] = []"
| "webSockets (NewWebSocket target # es) = target # webSockets es"
| "webSockets (e # es) = webSockets es"

fun provisioningRequests :: "effect list \<Rightarrow> string list" where
  "provisioningRequests [] = []"
| "provisioningRequests (HttpPost url headers (StartSandboxBody sn lb vl cl) # es) =
     url # provisioningRequests es"
| "provisioningRequests (e # es) = provisioningRequests es"

text \<open>
  The derivation of the endpoints as the specification words it: the scheme of the URL
  is substituted (ws by http and wss by https for configuration, http by ws and https by
  wss for transport) and nothing else of the URL changes.
\<close>

definition substituteScheme :: "string \<Rightarrow> string \<Rightarrow> string \<Rightarrow> string" where
  "substituteScheme old new url =
     (if startsWith url (old @ ''://'') then new @ drop (length old) url else url)"

definition specConfigUrl :: "string \<Rightarrow> string" where
  "specConfigUrl baseUrl =
     substituteScheme ''wss'' ''https'' (substituteScheme ''ws'' ''http'' baseUrl) @ ''/config''"

definition specWsUrl :: "string \<Rightarrow> string" where
  "specWsUrl baseUrl =
     substituteScheme ''https'' ''wss'' (substituteScheme ''http'' ''ws'' baseUrl) @ ''/ws''"

subsection \<open>Example inputs\<close>

text \<open>
  A client in platform mode and one in local mode; a platform that provisions the sandbox
  \<open>sb-1\<close> with a proxy URL; a configuration endpoint that fails four times and then
  accepts, and one that answers every attempt with status 503 and a body that cannot
  be read. The last client has a direct URL whose query holds a
  URL.
\<close>

definition exampleOptions :: ClientOptions where
  "exampleOptions =
     \<lparr>connectionUrl = None, anthropicApiKey = Some ''key'', clientId = Some ''me'',
      platformApiKey = None, snapshot = Some ''agent'', labels = None, volume = None,
      platformUrl = Some ''https://platform.example/'', resume = None, useProxy = None,
      agents = Undefined, allowedTools = Undefined, systemPrompt = Undefined,
      model = Undefined\<rparr>"

definition platformClient :: CastariClient where
  "platformClient =
     \<lparr>ws = None, options = exampleOptions, sandboxId = None, resolvedClientId = None,
      resolvedPlatformApiKey = None\<rparr>"

definition localClient :: CastariClient where
  "localClient =
     platformClient\<lparr>options := exampleOptions\<lparr>connectionUrl := Some ''http://localhost:3000/''\<rparr>\<rparr>"

definition exampleDescriptor :: SandboxDescriptor where
  "exampleDescriptor =
     \<lparr>sandboxIdent = ''sb-1'', sandboxUrl = ''https://sb-1.example'',
      proxyUrl = Some ''wss://platform.example/proxy/sb-1/ws'',
      sandboxAuthHeaders = None, sandboxAuthParams = None\<rparr>"

definition flakyEnv :: client_env where
  "flakyEnv =
     \<lparr>processEnv = Map.empty,
      startSandboxResult =
        Response \<lparr>ok = True, httpStatus = 200, bodyText = Some [], bodyJson = Some exampleDescriptor\<rparr>,
      configResult =
        (\<lambda>n. if n < 5 then NetworkError ''down''
             else Response \<lparr>ok = True, httpStatus = 200, bodyText = Some [],
                            bodyJson = Some \<lparr>connectionToken = Some ''t0''\<rparr>\<rparr>),
      stopSandboxResult =
        Response \<lparr>ok = True, httpStatus = 200, bodyText = Some [], bodyJson = None\<rparr>,
      webSocketOpens = True\<rparr>"

definition unreadableEnv :: client_env where
  "unreadableEnv =
     flakyEnv\<lparr>configResult :=
       (\<lambda>n. Response \<lparr>ok = False, httpStatus = 503, bodyText = None, bodyJson = None\<rparr>)\<rparr>"

definition queryClient :: CastariClient where
  "queryClient =
     platformClient\<lparr>options :=
       exampleOptions\<lparr>connectionUrl := Some ''ws://host/path?next=http://x''\<rparr>\<rparr>"

section \<open>Token store: proofs\<close>

lemma cleanupTokens_absent:
  "spent t tokens \<Longrightarrow> cleanupTokens now tokens t = None"
  by (auto simp: spent_def cleanupTokens_def split: option.splits)

lemma validate_spent_result:
  "spent t tokens \<Longrightarrow> \<not> fst (validateAndUseToken now1 now2 (Some t) tokens)"
  by (simp add: validateAndUseToken_def Let_def cleanupTokens_absent)

lemma validate_keeps_spent:
  "spent t tokens \<Longrightarrow> spent t (snd (validateAndUseToken now1 now2 v tokens))"
proof -
  assume a: "spent t tokens"
  have c: "cleanupTokens now1 tokens t = None"
    using a by (rule cleanupTokens_absent)
  show ?thesis
    using c by (auto simp: validateAndUseToken_def Let_def spent_def split: option.splits)
qed

lemma validate_true_spends:
  "validateAndUseToken now1 now2 (Some t) tokens = (True, tokens') \<Longrightarrow> spent t tokens'"
  by (auto simp: validateAndUseToken_def Let_def spent_def split: option.splits if_splits)

lemma issue_other_keeps_spent:
  "rnd \<noteq> t \<Longrightarrow> spent t tokens \<Longrightarrow>
   spent t (snd (generateConnectionToken now rnd tokens))"
  by (simp add: generateConnectionToken_def spent_def)

lemma accepted_spent:
  "spent t tokens \<Longrightarrow> \<forall>c\<in>set cs. \<not> issues t c \<Longrightarrow> accepted t tokens cs = 0"
proof (induction cs arbitrary: tokens)
  case Nil
  show ?case by simp
next
  case (Cons c cs)
  show ?case
  proof (cases c)
    case (Issue now rnd)
    have ne: "rnd \<noteq> t" using Cons.prems(2) Issue by auto
    have "spent t (snd (generateConnectionToken now rnd tokens))"
      using ne Cons.prems(1) by (rule issue_other_keeps_spent)
    then show ?thesis using Cons.IH Cons.prems(2) Issue by simp
  next
    case (Validate now1 now2 v)
    obtain ok tokens' where r: "validateAndUseToken now1 now2 v tokens = (ok, tokens')"
      by (cases "validateAndUseToken now1 now2 v tokens")
    have s': "spent t tokens'"
      using validate_keeps_spent [OF Cons.prems(1), of now1 now2 v] r by simp
    have no: "\<not> (ok \<and> v = Some t)"
      using validate_spent_result [OF Cons.prems(1), of now1 now2] r by auto
    have "accepted t tokens' cs = 0"
      using s' Cons.prems(2) by (intro Cons.IH) auto
    then show ?thesis using Validate r no by simp
  qed
qed

lemma accepted_le_1:
  "\<forall>c\<in>set cs. \<not> issues t c \<Longrightarrow> accepted t tokens cs \<le> 1"
proof (induction cs arbitrary: tokens)
  case Nil
  show ?case by simp
next
  case (Cons c cs)
  have rest: "\<forall>c\<in>set cs. \<not> issues t c" using Cons.prems by simp
  show ?case
  proof (cases c)
    case (Issue now rnd)
    then show ?thesis using Cons.IH [OF rest] by simp
  next
    case (Validate now1 now2 v)
    obtain ok tokens' where r: "validateAndUseToken now1 now2 v tokens = (ok, tokens')"
      by (cases "validateAndUseToken now1 now2 v tokens")
    show ?thesis
    proof (cases "ok \<and> v = Some t")
      case True
      then have "validateAndUseToken now1 now2 (Some t) tokens = (True, tokens')"
        using r by simp
      then have "spent t tokens'" by (rule validate_true_spends)
      then have "accepted t tokens' cs = 0" using rest by (rule accepted_spent)
      then show ?thesis using Validate r True by simp
    next
      case False
      then show ?thesis using Validate r Cons.IH [OF rest, of tokens'] by auto
    qed
  qed
qed

text \<open>
  C2 (single use). Take any token \<open>t\<close>, any store and any sequence of calls on the store
  in which \<open>t\<close> is not issued again (in particular any sequence of calls of
  \<open>validateAndUseToken\<close> alone, with any clock readings and any presented values).
  Then at most one call presenting \<open>t\<close> returns true; and from the store left by a call
  on \<open>t\<close> that returned true, no later call presenting \<open>t\<close> returns true.
\<close>

theorem C2_single_use:
  assumes "\<forall>c\<in>set cs. \<not> issues t c"
  shows "accepted t tokens cs \<le> 1 \<and>
         (\<forall>now1 now2 tokens'.
            validateAndUseToken now1 now2 (Some t) tokens = (True, tokens') \<longrightarrow>
            accepted t tokens' cs = 0)"
proof (intro conjI allI impI)
  show "accepted t tokens cs \<le> 1" using assms by (rule accepted_le_1)
next
  fix now1 now2 tokens'
  assume "validateAndUseToken now1 now2 (Some t) tokens = (True, tokens')"
  then have "spent t tokens'" by (rule validate_true_spends)
  then show "accepted t tokens' cs = 0" using assms by (rule accepted_spent)
qed

theorem C2_single_use_witness:
  "accepted ''ab'' [''ab'' \<mapsto> \<lparr>tokenValue = ''ab'', createdAt = 0, used = False\<rparr>]
     [Validate 10 10 (Some ''ab''), Issue 15 ''cd'', Validate 20 20 (Some ''ab'')] \<le> 1 \<and>
   accepted ''ab'' [''ab'' \<mapsto> \<lparr>tokenValue = ''ab'', createdAt = 0, used = False\<rparr>]
     [Validate 10 10 (Some ''ab''), Issue 15 ''cd'', Validate 20 20 (Some ''ab'')] = 1"
proof -
  have h: "\<forall>c\<in>set [Validate 10 10 (Some ''ab''), Issue 15 ''cd'',
                     Validate 20 20 (Some ''ab'')]. \<not> issues ''ab'' c"
    by simp
  have one:
    "accepted ''ab'' [''ab'' \<mapsto> \<lparr>tokenValue = ''ab'', createdAt = 0, used = False\<rparr>]
       [Validate 10 10 (Some ''ab''), Issue 15 ''cd'', Validate 20 20 (Some ''ab'')] = 1"
    by (simp add: validateAndUseToken_def cleanupTokens_def generateConnectionToken_def
        CONNECTION_TOKEN_TTL_MS_def Let_def)
  from C2_single_use [OF h] one show ?thesis by blast
qed

text \<open>
  C3 (expiry and sweep). A stored token whose age exceeds the TTL at either reading of
  the clock is rejected by \<open>validateAndUseToken\<close>, used or not; the TTL is 300000 ms,
  five minutes. And whatever value is
  presented (\<open>null\<close> included), every token that was marked used, or whose age exceeded
  the TTL when \<open>cleanupTokens\<close> read the clock, is gone from the store afterwards.
\<close>

theorem C3_expiry_and_sweep:
  "(\<forall>token. tokens t = Some token \<and>
      (CONNECTION_TOKEN_TTL_MS < now1 - createdAt token \<or>
       CONNECTION_TOKEN_TTL_MS < now2 - createdAt token) \<longrightarrow>
      \<not> fst (validateAndUseToken now1 now2 (Some t) tokens)) \<and>
   (\<forall>k token. tokens k = Some token \<and>
      (used token \<or> CONNECTION_TOKEN_TTL_MS < now1 - createdAt token) \<longrightarrow>
      snd (validateAndUseToken now1 now2 v tokens) k = None) \<and>
   CONNECTION_TOKEN_TTL_MS = 300000"
  by (auto simp: validateAndUseToken_def cleanupTokens_def Let_def CONNECTION_TOKEN_TTL_MS_def
      split: option.splits)

theorem C3_expiry_and_sweep_witness:
  "\<not> fst (validateAndUseToken 300001 300001 (Some ''ab'')
       [''ab'' \<mapsto> \<lparr>tokenValue = ''ab'', createdAt = 0, used = False\<rparr>]) \<and>
   snd (validateAndUseToken 300001 300001 None
       [''ab'' \<mapsto> \<lparr>tokenValue = ''ab'', createdAt = 0, used = False\<rparr>]) ''ab'' = None"
proof -
  let ?S = "[''ab'' \<mapsto> \<lparr>tokenValue = ''ab'', createdAt = 0, used = False\<rparr>]"
  let ?tok = "\<lparr>tokenValue = ''ab'', createdAt = 0, used = False\<rparr>"
  have h1: "?S ''ab'' = Some ?tok \<and>
      (CONNECTION_TOKEN_TTL_MS < 300001 - createdAt ?tok \<or>
       CONNECTION_TOKEN_TTL_MS < 300001 - createdAt ?tok)"
    by (simp add: CONNECTION_TOKEN_TTL_MS_def)
  have h2: "?S ''ab'' = Some ?tok \<and>
      (used ?tok \<or> CONNECTION_TOKEN_TTL_MS < 300001 - createdAt ?tok)"
    by (simp add: CONNECTION_TOKEN_TTL_MS_def)
  from C3_expiry_and_sweep [of ?S "''ab''" 300001 300001 None] h1 h2
  show ?thesis by blast
qed

section \<open>The connection broker: proofs\<close>

text \<open>
  C1, as stated, fails: with a connection active, an upgrade request that presents no
  token is answered 401, not 409. The handler validates the token before it looks at
  the active connection.
\<close>

theorem C1_conflict_counterexample:
  "status (fst (fetch \<lparr>clock1 = 0, clock2 = 0, randomHex = ''ab'', upgradeOk = True\<rparr>
      \<lparr>pathname = ''/ws'', httpMethod = ''GET'', json = None, tokenParam = None\<rparr>
      \<lparr>activeConnection = Some 1, messageQueue = [] :: nat list, activeStream = None,
       queryConfig = Map.empty, connectionTokens = Map.empty\<rparr>)) = Some 401"
  by (simp add: fetch_def Let_def validateAndUseToken_def split: prod.splits)

text \<open>
  C1, amended. For every upgrade request on \<open>/ws\<close> made while a connection is active:
  if the presented token passes \<open>validateAndUseToken\<close> the answer is 409 (and the token
  is consumed), and if it does not (invalid, expired, consumed or absent) the answer is
  401.
\<close>

theorem C1_conflict_after_validation:
  assumes "pathname req = ''/ws''" and "activeConnection s = Some c"
  shows "status (fst (fetch env req s)) =
           (if fst (validateAndUseToken (clock1 env) (clock2 env) (tokenParam req)
                      (connectionTokens s))
            then Some 409 else Some 401) \<and>
         connectionTokens (snd (fetch env req s)) =
           snd (validateAndUseToken (clock1 env) (clock2 env) (tokenParam req)
                  (connectionTokens s))"
  using assms by (simp add: fetch_def Let_def split: prod.splits)

theorem C1_conflict_after_validation_witness:
  "status (fst (fetch \<lparr>clock1 = 5, clock2 = 5, randomHex = ''cd'', upgradeOk = True\<rparr>
      \<lparr>pathname = ''/ws'', httpMethod = ''GET'', json = None, tokenParam = Some ''ab''\<rparr>
      \<lparr>activeConnection = Some 1, messageQueue = [] :: nat list, activeStream = None,
       queryConfig = Map.empty,
       connectionTokens =
         [''ab'' \<mapsto> \<lparr>tokenValue = ''ab'', createdAt = 0, used = False\<rparr>]\<rparr>)) = Some 409"
proof -
  let ?env = "\<lparr>clock1 = 5, clock2 = 5, randomHex = ''cd'', upgradeOk = True\<rparr>"
  let ?req = "\<lparr>pathname = ''/ws'', httpMethod = ''GET'', json = None,
               tokenParam = Some ''ab''\<rparr>"
  let ?s = "\<lparr>activeConnection = Some 1, messageQueue = [] :: nat list, activeStream = None,
       queryConfig = Map.empty,
       connectionTokens =
         [''ab'' \<mapsto> \<lparr>tokenValue = ''ab'', createdAt = 0, used = False\<rparr>]\<rparr>"
  have p: "pathname ?req = ''/ws''" by simp
  have a: "activeConnection ?s = Some 1" by simp
  have v: "fst (validateAndUseToken (clock1 ?env) (clock2 ?env) (tokenParam ?req)
                 (connectionTokens ?s))"
    by (simp add: validateAndUseToken_def cleanupTokens_def CONNECTION_TOKEN_TTL_MS_def
        Let_def)
  from C1_conflict_after_validation [OF p a, of ?env] v show ?thesis by simp
qed

text \<open>
  C9. A POST to \<open>/config\<close> whose body is not JSON is answered 400 and leaves the whole
  state of the broker as it was: no token is issued and the stored configuration is
  unchanged.
\<close>

theorem C9_invalid_json:
  assumes "pathname req = ''/config''" and "httpMethod req = ''POST''"
    and "json req = None"
  shows "fetch env req s = (InvalidJson, s) \<and> status InvalidJson = Some 400"
  using assms by (simp add: fetch_def)

theorem C9_invalid_json_witness:
  "fetch \<lparr>clock1 = 5, clock2 = 5, randomHex = ''cd'', upgradeOk = True\<rparr>
     \<lparr>pathname = ''/config'', httpMethod = ''POST'', json = None, tokenParam = None\<rparr>
     \<lparr>activeConnection = None, messageQueue = [] :: nat list, activeStream = None,
      queryConfig = [''model'' \<mapsto> JStr ''m''], connectionTokens = Map.empty\<rparr>
   = (InvalidJson,
     \<lparr>activeConnection = None, messageQueue = [] :: nat list, activeStream = None,
      queryConfig = [''model'' \<mapsto> JStr ''m''], connectionTokens = Map.empty\<rparr>)"
proof -
  let ?req = "\<lparr>pathname = ''/config'', httpMethod = ''POST'', json = None,
               tokenParam = None\<rparr>"
  have a: "pathname ?req = ''/config''" and b: "httpMethod ?req = ''POST''"
    and c: "json ?req = None"
    by simp_all
  from C9_invalid_json [OF a b c] show ?thesis by blast
qed

text \<open>
  C10. When a socket closes, the active-connection reference is cleared if that socket
  is the registered one; a close of any other socket (a stale one) leaves the state,
  and so a newer active connection, as it was.
\<close>

theorem C10_close_guard:
  "(activeConnection s = Some sock \<longrightarrow> ws_close sock s = s\<lparr>activeConnection := None\<rparr>) \<and>
   (activeConnection s \<noteq> Some sock \<longrightarrow> ws_close sock s = s)"
  by (simp add: ws_close_def)

theorem C10_close_guard_witness:
  "ws_close 2 \<lparr>activeConnection = Some 2, messageQueue = [] :: nat list,
      activeStream = None, queryConfig = Map.empty, connectionTokens = Map.empty\<rparr>
   = \<lparr>activeConnection = None, messageQueue = [], activeStream = None,
      queryConfig = Map.empty, connectionTokens = Map.empty\<rparr> \<and>
   activeConnection (ws_close 1 \<lparr>activeConnection = Some 2, messageQueue = [] :: nat list,
      activeStream = None, queryConfig = Map.empty, connectionTokens = Map.empty\<rparr>) = Some 2"
proof -
  let ?s = "\<lparr>activeConnection = Some 2, messageQueue = [] :: nat list,
      activeStream = None, queryConfig = Map.empty, connectionTokens = Map.empty\<rparr>"
  have a: "activeConnection ?s = Some 2" by simp
  have b: "activeConnection ?s \<noteq> Some 1" by simp
  from C10_close_guard [of ?s 2] a have "ws_close 2 ?s = ?s\<lparr>activeConnection := None\<rparr>"
    by blast
  moreover from C10_close_guard [of ?s 1] b have "ws_close 1 ?s = ?s" by blast
  ultimately show ?thesis by simp
qed

section \<open>The options of the runtime stream: proofs\<close>



text \<open>
  The runtime stream is started by the first \<open>open\<close>, with the options resolved from the
  configuration stored at that moment; a later \<open>open\<close> starts no second stream.
\<close>

lemma ws_open_starts_stream:
  "activeStream (snd (ws_open wd penv initialOptions sock s)) =
     (case activeStream s of
        None \<Rightarrow> Some (processMessages_options wd penv initialOptions (queryConfig s))
      | Some running \<Rightarrow> Some running)"
  by (simp add: ws_open_def Let_def split: option.splits)

section \<open>The drain generator: proofs\<close>

lemma generateMessages_keeps:
  "generateMessages r q out = (q', p, r', out') \<Longrightarrow>
   out' @ q' = out @ q \<and> length q' \<le> length q \<and> (q \<noteq> [] \<longrightarrow> length q' < length q)"
proof (induction r q out arbitrary: q' p r' out' rule: generateMessages.induct)
  case (1 requests out)
  then show ?case by simp
next
  case (2 requests message rest out)
  show ?case
  proof (cases "requests \<le> 1")
    case True
    then show ?thesis using 2(2) by auto
  next
    case False
    then have "generateMessages (requests - 1) rest (out @ [message]) = (q', p, r', out')"
      using 2(2) by simp
    from 2(1) [OF False this] show ?thesis by auto
  qed
qed

lemma resumeBody_keeps:
  "prompt (resumeBody n b) @ inputQueue (resumeBody n b) = prompt b @ inputQueue b"
  "length (inputQueue (resumeBody n b)) \<le> length (inputQueue b)"
  "inputQueue b \<noteq> [] \<Longrightarrow> length (inputQueue (resumeBody n b)) < length (inputQueue b)"
proof -
  obtain q p r out where g: "generateMessages n (inputQueue b) (prompt b) = (q, p, r, out)"
    by (cases "generateMessages n (inputQueue b) (prompt b)")
  have r: "inputQueue (resumeBody n b) = q" "prompt (resumeBody n b) = out"
    by (simp_all add: resumeBody_def g)
  from generateMessages_keeps [OF g] r
  show "prompt (resumeBody n b) @ inputQueue (resumeBody n b) = prompt b @ inputQueue b"
    "length (inputQueue (resumeBody n b)) \<le> length (inputQueue b)"
    "inputQueue b \<noteq> [] \<Longrightarrow> length (inputQueue (resumeBody n b)) < length (inputQueue b)"
    by auto
qed

lemma step_keeps:
  "prompt (step e b) @ inputQueue (step e b) = prompt b @ inputQueue b @ enqueued [e]"
  by (cases e) (simp_all add: resumeBody_keeps(1) enqueue_def)

lemma enqueued_append: "enqueued (es @ fs) = enqueued es @ enqueued fs"
  by (induction es rule: enqueued.induct) simp_all

lemma run_keeps:
  "prompt (run es b) @ inputQueue (run es b) = prompt b @ inputQueue b @ enqueued es"
  unfolding run_def
proof (induction es arbitrary: b)
  case Nil
  show ?case by simp
next
  case (Cons e es)
  have "enqueued (e # es) = enqueued [e] @ enqueued es"
    using enqueued_append [of "[e]" es] by simp
  then show ?case using Cons.IH [of "step e b"] step_keeps [of e b] by simp
qed

lemma step_Next_length:
  "length (inputQueue (step Next b)) \<le> length (inputQueue b)"
  by (simp add: resumeBody_keeps(2))

lemma step_TimerFires_length:
  "length (inputQueue (step TimerFires b)) \<le> length (inputQueue b)"
  by (simp add: resumeBody_keeps(2))

lemma round_shrinks:
  "length (inputQueue (step TimerFires (step Next b))) \<le> length (inputQueue b) - 1"
proof (cases "inputQueue b = []")
  case True
  have "length (inputQueue (step TimerFires (step Next b))) \<le> length (inputQueue b)"
    using step_TimerFires_length [of "step Next b"] step_Next_length [of b] by simp
  then show ?thesis using True by simp
next
  case False
  show ?thesis
  proof (cases "genPoint b = Waiting")
    case True
    let ?b = "b\<lparr>requests := requests b + 1\<rparr>"
    have "inputQueue ?b \<noteq> []" using False by simp
    then have "length (inputQueue (resumeBody (requests ?b) ?b)) < length (inputQueue ?b)"
      by (rule resumeBody_keeps(3))
    then show ?thesis using True by simp
  next
    case idle: False
    have a: "length (inputQueue (resumeBody (requests b + 1) b)) < length (inputQueue b)"
      using False by (rule resumeBody_keeps(3))
    have "length (inputQueue (step TimerFires (resumeBody (requests b + 1) b)))
          \<le> length (inputQueue (resumeBody (requests b + 1) b))"
      by (rule step_TimerFires_length)
    then show ?thesis using idle a by simp
  qed
qed

lemma enqueued_pulls: "enqueued (pulls n) = []"
  by (induction n) (simp_all add: pulls_def)

lemma pulls_drain:
  "length (inputQueue b) \<le> n \<Longrightarrow> inputQueue (run (pulls n) b) = []"
proof (induction n arbitrary: b)
  case 0
  then show ?case by (simp add: run_def pulls_def)
next
  case (Suc n)
  have "length (inputQueue (step TimerFires (step Next b))) \<le> n"
    using round_shrinks [of b] Suc.prems by simp
  from Suc.IH [OF this] show ?case by (simp add: run_def pulls_def)
qed

text \<open>
  C8 (FIFO input). Start from the empty queue and take any interleaving of enqueues,
  requests of the runtime and timer firings. The messages the runtime has received,
  followed by those still queued, are exactly the submitted messages in submission
  order: none is reordered, merged or dropped, however many are enqueued between two
  firings of the timer. And once the runtime has asked and the timer has fired as many
  times as there were submissions, the runtime has received all of them, in that order.
\<close>

theorem C8_fifo:
  "prompt (run es initialBridge) @ inputQueue (run es initialBridge) = enqueued es \<and>
   prompt (run (es @ pulls (length (enqueued es))) initialBridge) = enqueued es"
proof
  show a: "prompt (run es initialBridge) @ inputQueue (run es initialBridge) = enqueued es"
    using run_keeps [of es initialBridge] by (simp add: initialBridge_def)
  let ?b = "run es (initialBridge :: 'a bridge)"
  let ?n = "length (enqueued es)"
  have len: "length (inputQueue ?b) \<le> ?n"
    using arg_cong [OF a, of length] by simp
  have e: "inputQueue (run (pulls ?n) ?b) = []" using len by (rule pulls_drain)
  have "prompt (run (pulls ?n) ?b) @ inputQueue (run (pulls ?n) ?b) = enqueued es"
    using run_keeps [of "pulls ?n" ?b] a by (simp add: enqueued_pulls)
  then have "prompt (run (pulls ?n) ?b) = enqueued es" using e by simp
  then show "prompt (run (es @ pulls ?n) initialBridge) = enqueued es"
    by (simp add: run_def)
qed

section \<open>The client: proofs\<close>

subsection \<open>stop\<close>

lemma stopRequestIds_append:
  "stopRequestIds (xs @ ys) = stopRequestIds xs @ stopRequestIds ys"
  by (induction xs rule: stopRequestIds.induct) simp_all

lemma consoleErrors_append:
  "consoleErrors (xs @ ys) = consoleErrors xs @ consoleErrors ys"
  by (induction xs rule: consoleErrors.induct) simp_all

lemma stop_result:
  "fst (stop penv result deleteFlag c) = Inr () \<and> snd (snd (stop penv result deleteFlag c)) = c"
  by (simp add: stop_def Let_def split: prod.splits sum.splits)

lemma stop_requests:
  "stopRequestIds (fst (snd (stop penv result deleteFlag c))) =
     (if truthyStr (sandboxId c) then [sandboxId c] else [])"
  by (cases result)
    (simp_all add: stop_def stopTry_def stopRequest_def Let_def stopRequestIds_append
      split: option.splits)

lemma stop_errors:
  "consoleErrors (fst (snd (stop penv result deleteFlag c))) =
     (if truthyStr (sandboxId c)
      then (case result of
              NetworkError err \<Rightarrow> [''Failed to call stop endpoint:'']
            | Response response \<Rightarrow>
                if ok response then []
                else (case bodyText response of
                        Some errorText \<Rightarrow> [''Failed to stop sandbox: '' @ errorText]
                      | None \<Rightarrow> [''Failed to call stop endpoint:'']))
      else [])"
  by (cases result)
    (simp_all add: stop_def stopTry_def stopRequest_def Let_def consoleErrors_append
      split: option.splits)

text \<open>
  C4, as stated, fails: \<open>stop\<close> never clears \<open>sandboxId\<close>. Here the first stop request
  fails on the network, so that the sandbox \<open>sb-1\<close> is still live, and the second call
  of \<open>stop\<close> issues a stop request that carries \<open>sb-1\<close> again.
\<close>

theorem C4_idempotence_counterexample:
  "stopRequestIds (fst (snd (snd (stopTwice Map.empty (NetworkError ''down'')
      (Response \<lparr>ok = True, httpStatus = 200, bodyText = Some [], bodyJson = None\<rparr>) (Some True)
      \<lparr>ws = None,
       options = \<lparr>connectionUrl = None, anthropicApiKey = Some ''key'', clientId = Some ''me'',
          platformApiKey = None, snapshot = Some ''agent'', labels = None, volume = None,
          platformUrl = None, resume = None, useProxy = None, agents = Undefined,
          allowedTools = Undefined, systemPrompt = Undefined, model = Undefined\<rparr>,
       sandboxId = Some ''sb-1'', resolvedClientId = Some ''me'',
       resolvedPlatformApiKey = None\<rparr>)))) = [Some ''sb-1'']"
  by (simp add: stopTwice_def stop_def stopTry_def stopRequest_def truthyStr_def Let_def)

text \<open>
  C4, amended. When \<open>stop\<close> is called twice in a row, neither call throws, whatever the
  platform answers; a failed stop request (a network error, a status that is not a
  success, or a body that cannot be read) is only written to the error console; and \<open>stop\<close> leaves the client's fields
  as they were, so the second call issues a stop request with the same \<open>sandboxId\<close> when
  a sandbox was provisioned, and none when none was.
\<close>

theorem C4_stop_twice:
  "fst (fst (stopTwice penv result1 result2 deleteFlag c)) = Inr () \<and>
   fst (snd (stopTwice penv result1 result2 deleteFlag c)) = Inr () \<and>
   snd (snd (snd (stopTwice penv result1 result2 deleteFlag c))) = c \<and>
   stopRequestIds (fst (snd (snd (stopTwice penv result1 result2 deleteFlag c)))) =
     (if truthyStr (sandboxId c) then [sandboxId c] else []) \<and>
   consoleErrors (fst (snd (snd (stopTwice penv result1 result2 deleteFlag c)))) =
     (if truthyStr (sandboxId c)
      then (case result2 of
              NetworkError err \<Rightarrow> [''Failed to call stop endpoint:'']
            | Response response \<Rightarrow>
                if ok response then []
                else (case bodyText response of
                        Some errorText \<Rightarrow> [''Failed to stop sandbox: '' @ errorText]
                      | None \<Rightarrow> [''Failed to call stop endpoint:'']))
      else [])"
  by (simp add: stopTwice_def Let_def stop_result stop_requests stop_errors)

subsection \<open>start\<close>

declare configLoop.simps [simp del]

lemma configLoop_success:
  "attempt \<le> k \<Longrightarrow> k \<le> maxConfigAttempts \<Longrightarrow>
   (\<forall>j. attempt \<le> j \<and> j < k \<longrightarrow> failed (results j)) \<Longrightarrow> \<not> failed (results k) \<Longrightarrow>
   configLoop post results attempt prev =
     (caught (results k), post # concat (replicate (k - attempt) [Sleep 3000, post]))"
proof (induction "k - attempt" arbitrary: attempt prev)
  case 0
  then have "attempt = k" by simp
  then show ?case
    using 0 by (subst configLoop.simps) (simp add: failed_def Let_def)
next
  case (Suc d)
  have lt: "attempt < k" using Suc.hyps(2) by simp
  have f: "failed (results attempt)" using Suc.prems(3) lt by simp
  have d: "d = k - (Suc attempt)" using Suc.hyps(2) by simp
  have rest: "\<forall>j. Suc attempt \<le> j \<and> j < k \<longrightarrow> failed (results j)"
    using Suc.prems(3) by simp
  have ih: "configLoop post results (Suc attempt) (caught (results attempt)) =
     (caught (results k), post # concat (replicate (k - (Suc attempt)) [Sleep 3000, post]))"
    using lt Suc.prems(2) rest Suc.prems(4) by (intro Suc.hyps(1) [OF d]) simp_all
  have r: "replicate (k - attempt) [Sleep 3000, post] =
           [Sleep 3000, post] # replicate (k - (Suc attempt)) [Sleep 3000, post]"
    using lt by (metis Suc.hyps(2) d replicate_Suc)
  show ?case
    using f lt Suc.prems(2)
    by (subst configLoop.simps) (simp add: ih r failed_def Let_def)
qed

lemma configLoop_exhausted:
  "attempt \<le> maxConfigAttempts \<Longrightarrow>
   (\<forall>j. attempt \<le> j \<and> j \<le> maxConfigAttempts \<longrightarrow> failed (results j)) \<Longrightarrow>
   configLoop post results attempt prev =
     (caught (results maxConfigAttempts),
      post # concat (replicate (maxConfigAttempts - attempt) [Sleep 3000, post]))"
proof (induction "maxConfigAttempts - attempt" arbitrary: attempt prev)
  case 0
  then have e: "attempt = maxConfigAttempts" by simp
  have f: "failed (results maxConfigAttempts)" using 0 e by simp
  have after: "configLoop post results (maxConfigAttempts + 1) (caught (results maxConfigAttempts))
               = (caught (results maxConfigAttempts), [])"
    by (subst configLoop.simps) simp
  show ?case
    using f after unfolding e
    by (subst configLoop.simps) (simp add: failed_def Let_def)
next
  case (Suc d)
  have lt: "attempt < maxConfigAttempts" using Suc.hyps(2) by simp
  have f: "failed (results attempt)" using Suc.prems(2) lt by simp
  have d: "d = maxConfigAttempts - (Suc attempt)" using Suc.hyps(2) by simp
  have ih: "configLoop post results (Suc attempt) (caught (results attempt)) =
     (caught (results maxConfigAttempts),
      post # concat (replicate (maxConfigAttempts - (Suc attempt)) [Sleep 3000, post]))"
    using lt Suc.prems(2) by (intro Suc.hyps(1) [OF d]) simp_all
  have r: "replicate (maxConfigAttempts - attempt) [Sleep 3000, post] =
           [Sleep 3000, post] # replicate (maxConfigAttempts - (Suc attempt)) [Sleep 3000, post]"
    using lt by (metis Suc.hyps(2) d replicate_Suc)
  show ?case
    using f lt
    by (subst configLoop.simps) (simp add: ih r failed_def Let_def)
qed


text \<open>
  The loop run from its first attempt: it makes \<open>attemptsMade\<close> attempts and ends with the
  response of the last of them, which is ok exactly when some attempt did not fail.
\<close>

lemma firstSuccess_Some:
  assumes "firstSuccess results = Some k"
  shows "1 \<le> k" and "k \<le> 5" and "\<not> failed (results k)"
    and "\<forall>j. 1 \<le> j \<and> j < k \<longrightarrow> failed (results j)"
proof -
  from assms obtain i where i: "i < length [1..<6::nat]"
    "\<not> failed (results ([1..<6] ! i))" "k = [1..<6] ! i"
    "\<forall>j<i. failed (results ([1..<6] ! j))"
    unfolding firstSuccess_def find_Some_iff by blast
  have k: "k = 1 + i" and i5: "i < 5" using i(1,3) by simp_all
  show "1 \<le> k" "k \<le> 5" using k i5 by simp_all
  show "\<not> failed (results k)" using i(2,3) by simp
  show "\<forall>j. 1 \<le> j \<and> j < k \<longrightarrow> failed (results j)"
  proof (intro allI impI)
    fix j assume j: "1 \<le> j \<and> j < k"
    then have "j - 1 < i" using k by arith
    then have "failed (results ([1..<6] ! (j - 1)))" using i(4) by blast
    moreover have "[1..<6::nat] ! (j - 1) = j" using j k i5 by simp
    ultimately show "failed (results j)" by simp
  qed
qed

lemma firstSuccess_None:
  assumes "firstSuccess results = None"
  shows "\<forall>j. 1 \<le> j \<and> j \<le> 5 \<longrightarrow> failed (results j)"
  using assms unfolding firstSuccess_def find_None_iff by auto

lemma attemptsMade_bounds:
  "1 \<le> attemptsMade results \<and> attemptsMade results \<le> 5"
  by (auto simp: attemptsMade_def dest: firstSuccess_Some(1,2) split: option.splits)

lemma configLoop_run:
  "configLoop post results 1 None =
     (caught (results (attemptsMade results)), attempts post (attemptsMade results))"
proof (cases "firstSuccess results")
  case None
  have "configLoop post results 1 None =
     (caught (results maxConfigAttempts),
      post # concat (replicate (maxConfigAttempts - 1) [Sleep 3000, post]))"
    using firstSuccess_None [OF None]
    by (intro configLoop_exhausted) (simp_all add: maxConfigAttempts_def)
  then show ?thesis using None
    by (simp add: attemptsMade_def attempts_def maxConfigAttempts_def)
next
  case (Some k)
  have "configLoop post results 1 None =
     (caught (results k), post # concat (replicate (k - 1) [Sleep 3000, post]))"
    using firstSuccess_Some [OF Some]
    by (intro configLoop_success) (simp_all add: maxConfigAttempts_def)
  then show ?thesis using Some by (simp add: attemptsMade_def attempts_def)
qed

lemma responseOk_run:
  "responseOk (caught (results (attemptsMade results))) = (firstSuccess results \<noteq> None)"
proof (cases "firstSuccess results")
  case None
  then show ?thesis
    using firstSuccess_None [OF None] by (simp add: attemptsMade_def failed_def)
next
  case (Some k)
  then show ?thesis
    using firstSuccess_Some(3) [OF Some] by (simp add: attemptsMade_def failed_def)
qed

lemma configTargets_append: "configTargets (xs @ ys) = configTargets xs @ configTargets ys"
  by (induction xs rule: configTargets.induct) simp_all

lemma webSockets_append: "webSockets (xs @ ys) = webSockets xs @ webSockets ys"
  by (induction xs rule: webSockets.induct) simp_all

lemma provisioningRequests_append:
  "provisioningRequests (xs @ ys) = provisioningRequests xs @ provisioningRequests ys"
  by (induction xs rule: provisioningRequests.induct) simp_all

lemma attempts_observed:
  "configTargets (concat (replicate n [Sleep 3000, configPost key connection c]))
     = replicate n (configUrl connection)"
  "webSockets (concat (replicate n [Sleep 3000, configPost key connection c])) = []"
  "provisioningRequests (concat (replicate n [Sleep 3000, configPost key connection c])) = []"
  "stopRequestIds (concat (replicate n [Sleep 3000, configPost key connection c])) = []"
  by (induction n) (simp_all add: configPost_def Let_def)

lemma attempts_targets:
  "1 \<le> k \<Longrightarrow>
   configTargets (attempts (configPost key connection c) k) = replicate k (configUrl connection)"
  "webSockets (attempts (configPost key connection c) k) = []"
  "provisioningRequests (attempts (configPost key connection c) k) = []"
  "stopRequestIds (attempts (configPost key connection c) k) = []"
proof -
  let ?post = "configPost key connection c"
  let ?more = "concat (replicate (k - 1) [Sleep 3000, ?post])"
  have split: "attempts ?post k = [?post] @ ?more" by (simp add: attempts_def)
  have head: "configTargets [?post] = [configUrl connection]" "webSockets [?post] = []"
    "provisioningRequests [?post] = []" "stopRequestIds [?post] = []"
    by (simp_all add: configPost_def Let_def)
  have "configTargets (attempts ?post k) = configUrl connection # replicate (k - 1) (configUrl connection)"
    unfolding split configTargets_append head attempts_observed by simp
  then show "1 \<le> k \<Longrightarrow> configTargets (attempts ?post k) = replicate k (configUrl connection)"
    by (cases k) simp_all
  show "webSockets (attempts ?post k) = []"
    unfolding split webSockets_append head attempts_observed by simp
  show "provisioningRequests (attempts ?post k) = []"
    unfolding split provisioningRequests_append head attempts_observed by simp
  show "stopRequestIds (attempts ?post k) = []"
    unfolding split stopRequestIds_append head attempts_observed by simp
qed

lemma stop_targets:
  "configTargets (fst (snd (stop penv result deleteFlag c))) = [] \<and>
   webSockets (fst (snd (stop penv result deleteFlag c))) = [] \<and>
   provisioningRequests (fst (snd (stop penv result deleteFlag c))) = []"
  by (cases result)
    (simp_all add: stop_def stopTry_def stopRequest_def Let_def configTargets_append
      webSockets_append provisioningRequests_append split: option.splits)

lemma runCleanup_targets:
  "configTargets (runCleanup env connection c) = [] \<and>
   webSockets (runCleanup env connection c) = [] \<and>
   provisioningRequests (runCleanup env connection c) = []"
  by (simp add: runCleanup_def stop_targets)

lemma configureFailed_targets:
  "configTargets (fst (snd (configureFailed env connection c r))) = [] \<and>
   webSockets (fst (snd (configureFailed env connection c r))) = [] \<and>
   provisioningRequests (fst (snd (configureFailed env connection c r))) = []"
  by (simp add: configureFailed_def runCleanup_targets split: option.splits)

lemma openTransport_targets:
  "configTargets (fst (snd (openTransport env connection c r))) = [] \<and>
   provisioningRequests (fst (snd (openTransport env connection c r))) = [] \<and>
   webSockets (fst (snd (openTransport env connection c r))) =
     (case bodyJson r of
        None \<Rightarrow> []
      | Some reply \<Rightarrow>
          if truthyStr (connectionToken reply)
          then [transportTarget connection (the (connectionToken reply))] else [])"
  by (simp add: openTransport_def Let_def runCleanup_targets split: option.splits)

lemma resolveConnection_targets:
  "configTargets (fst (snd (resolveConnection env c))) = [] \<and>
   webSockets (fst (snd (resolveConnection env c))) = []"
  by (simp add: resolveConnection_def setupPlatformConnection_def startRequest_def Let_def
      split: fetch_result.splits option.splits)

lemma start_no_key:
  "\<not> truthyStr (apiKey env c0) \<Longrightarrow> fst (snd (start env c0)) = []"
  by (simp add: start_def)

text \<open>
  \<open>start\<close> with its API key and a resolved connection: the setup, the attempts, and then
  either the failure branch on the fifth response or the transport on the first response
  that is ok.
\<close>

lemma start_unfold:
  assumes key: "truthyStr (apiKey env c0)"
    and conn: "resolveConnection env (resolveIds env c0) = (Inr connection, setupEffects, c)"
  shows "start env c0 =
     (case firstSuccess (configResult env) of
        None \<Rightarrow>
          (fst (configureFailed env connection c (caught (configResult env 5))),
           setupEffects @ attempts (configPost (the (apiKey env c0)) connection c) 5
             @ fst (snd (configureFailed env connection c (caught (configResult env 5)))),
           snd (snd (configureFailed env connection c (caught (configResult env 5)))))
      | Some k \<Rightarrow>
          (fst (openTransport env connection c (the (caught (configResult env k)))),
           setupEffects @ attempts (configPost (the (apiKey env c0)) connection c) k
             @ fst (snd (openTransport env connection c (the (caught (configResult env k))))),
           snd (snd (openTransport env connection c (the (caught (configResult env k)))))))"
proof (cases "firstSuccess (configResult env)")
  case None
  then show ?thesis
    using key conn configLoop_run [of _ "configResult env"] responseOk_run [of "configResult env"]
    by (simp add: start_def attemptsMade_def split: prod.splits)
next
  case (Some k)
  then show ?thesis
    using key conn configLoop_run [of _ "configResult env"] responseOk_run [of "configResult env"]
    by (simp add: start_def attemptsMade_def split: prod.splits)
qed

lemma start_observed:
  assumes key: "truthyStr (apiKey env c0)"
    and conn: "resolveConnection env (resolveIds env c0) = (Inr connection, setupEffects, c)"
  shows "configTargets (fst (snd (start env c0))) =
           replicate (attemptsMade (configResult env)) (configUrl connection)"
    and "webSockets (fst (snd (start env c0))) =
           (case tokenRead (configResult env) of
              Some token \<Rightarrow> [transportTarget connection token]
            | None \<Rightarrow> [])"
    and "provisioningRequests (fst (snd (start env c0))) = provisioningRequests setupEffects"
proof -
  have se: "configTargets setupEffects = []" "webSockets setupEffects = []"
    using resolveConnection_targets [of env "resolveIds env c0"] conn by simp_all
  note u = start_unfold [OF key conn]
  show "configTargets (fst (snd (start env c0))) =
           replicate (attemptsMade (configResult env)) (configUrl connection)"
  proof (cases "firstSuccess (configResult env)")
    case None
    then show ?thesis
      using u se configureFailed_targets [of env connection c]
      by (simp add: configTargets_append attempts_targets attemptsMade_def)
  next
    case (Some k)
    then show ?thesis
      using u se openTransport_targets [of env connection c] firstSuccess_Some(1) [OF Some]
      by (simp add: configTargets_append attempts_targets attemptsMade_def)
  qed
  show "webSockets (fst (snd (start env c0))) =
           (case tokenRead (configResult env) of
              Some token \<Rightarrow> [transportTarget connection token]
            | None \<Rightarrow> [])"
  proof (cases "firstSuccess (configResult env)")
    case None
    then show ?thesis
      using u se configureFailed_targets [of env connection c]
      by (simp add: webSockets_append attempts_targets tokenRead_def)
  next
    case (Some k)
    then show ?thesis
      using u se openTransport_targets [of env connection c]
      by (auto simp: webSockets_append attempts_targets tokenRead_def truthyStr_def
          split: option.splits)
  qed
  show "provisioningRequests (fst (snd (start env c0))) = provisioningRequests setupEffects"
  proof (cases "firstSuccess (configResult env)")
    case None
    then show ?thesis
      using u configureFailed_targets [of env connection c]
      by (simp add: provisioningRequests_append attempts_targets)
  next
    case (Some k)
    then show ?thesis
      using u openTransport_targets [of env connection c]
      by (simp add: provisioningRequests_append attempts_targets)
  qed
qed

lemma startsWith_includes: "startsWith s p \<Longrightarrow> js_includes s p"
  by (cases s; cases p) simp_all

lemma includes_tail: "js_includes s (a # p) \<Longrightarrow> js_includes s p"
proof (induction s)
  case Nil
  then show ?case by simp
next
  case (Cons c cs)
  from Cons.prems have "(c = a \<and> startsWith cs p) \<or> js_includes cs (a # p)" by simp
  then have "js_includes cs p"
    using Cons.IH startsWith_includes by blast
  then show ?case by (cases p) simp_all
qed

lemma replaceFirst_absent: "\<not> js_includes s p \<Longrightarrow> replaceFirst p r s = s"
  by (induction s) (auto split: if_splits)

lemma no_scheme_in_rest:
  assumes "\<not> js_includes rest ''://''"
  shows "replaceFirst ''ws://'' r rest = rest" and "replaceFirst ''wss://'' r rest = rest"
    and "replaceFirst ''http://'' r rest = rest" and "replaceFirst ''https://'' r rest = rest"
proof -
  have a: "\<not> js_includes rest (x # ''://'')" for x
    using assms includes_tail by blast
  have b: "\<not> js_includes rest (y # x # ''://'')" for x y
    using a includes_tail by blast
  have c: "\<not> js_includes rest (z # y # x # ''://'')" for x y z
    using b includes_tail by blast
  have d: "\<not> js_includes rest (w # z # y # x # ''://'')" for x y z w
    using c includes_tail by blast
  have e: "\<not> js_includes rest (v # w # z # y # x # ''://'')" for x y z w v
    using d includes_tail by blast
  show "replaceFirst ''ws://'' r rest = rest" using b by (intro replaceFirst_absent) simp
  show "replaceFirst ''wss://'' r rest = rest" using c by (intro replaceFirst_absent) simp
  show "replaceFirst ''http://'' r rest = rest" using d by (intro replaceFirst_absent) simp
  show "replaceFirst ''https://'' r rest = rest" using e by (intro replaceFirst_absent) simp
qed

lemma scheme_substitution:
  assumes "\<not> js_includes rest ''://''"
  shows "toHttpScheme (''http://'' @ rest) = ''http://'' @ rest"
    and "toWsScheme (''http://'' @ rest) = ''ws://'' @ rest"
    and "toHttpScheme (''https://'' @ rest) = ''https://'' @ rest"
    and "toWsScheme (''https://'' @ rest) = ''wss://'' @ rest"
    and "toHttpScheme (''ws://'' @ rest) = ''http://'' @ rest"
    and "toWsScheme (''ws://'' @ rest) = ''ws://'' @ rest"
    and "toHttpScheme (''wss://'' @ rest) = ''https://'' @ rest"
    and "toWsScheme (''wss://'' @ rest) = ''wss://'' @ rest"
  by (simp_all add: toHttpScheme_def toWsScheme_def no_scheme_in_rest [OF assms])

lemma resolveConnection_proxy:
  assumes "\<not> truthyStr (connectionUrl (options c))" and "truthyStr (resolvedClientId c)"
    and "startSandboxResult env = Response r" and "ok r" and "bodyJson r = Some d"
    and "proxyEnabled (processEnv env) c" and "truthyStr (proxyUrl d)"
  shows "resolveConnection env c =
     (Inr \<lparr>configUrl = platformBase (processEnv env) c @ ''/proxy/'' @ sandboxIdent d
                @ ''/config'',
            wsUrl = the (proxyUrl d), authHeaders = None, authParams = None,
            cleanup = True\<rparr>,
      [startRequest (processEnv env) c], c\<lparr>sandboxId := Some (sandboxIdent d)\<rparr>)"
  using assms
  by (simp add: resolveConnection_def setupPlatformConnection_def Let_def proxyEnabled_def)



text \<open>
  The three ways the configuration ends. When attempt \<open>k\<close> is the first that does not
  fail and its reply carries a token, the trace is \<open>k\<close> posts with a sleep of 3000 ms
  between two of them and none after the last, and then the WebSocket opened with that
  token. When all five attempts fail and the last response is absent or its body can be
  read, the five posts are followed by the cleanup and the configuration error carries the
  status and that body, or \<open>no response\<close>. When all five fail and the body of the last
  response cannot be read, \<open>start\<close> throws the rejection of the read, with no cleanup.
\<close>

lemma start_success:
  assumes key: "truthyStr (apiKey env c0)"
    and conn: "resolveConnection env (resolveIds env c0) = (Inr connection, setupEffects, c)"
    and first: "firstSuccess (configResult env) = Some k"
    and reply: "bodyJson (the (caught (configResult env k))) = Some reply"
    and token: "connectionToken reply = Some t" "t \<noteq> []"
  shows "start env c0 =
     (if webSocketOpens env then Inr () else Inl WebSocketFailed,
      setupEffects @ attempts (configPost (the (apiKey env c0)) connection c) k
        @ NewWebSocket (transportTarget connection t)
          # (if webSocketOpens env then [] else [ConsoleError ''WebSocket error:'']),
      c\<lparr>ws := Some (transportTarget connection t)\<rparr>)"
  using start_unfold [OF key conn] first reply token
  by (simp add: openTransport_def truthyStr_def Let_def)

lemma start_exhausted:
  assumes key: "truthyStr (apiKey env c0)"
    and conn: "resolveConnection env (resolveIds env c0) = (Inr connection, setupEffects, c)"
    and none: "firstSuccess (configResult env) = None"
    and readable: "case caught (configResult env 5) of None \<Rightarrow> True | Some r \<Rightarrow> bodyText r \<noteq> None"
  shows "start env c0 =
     (Inl (ConfigureFailed (map_option httpStatus (caught (configResult env 5)))
             (case caught (configResult env 5) of
                Some r \<Rightarrow> the (bodyText r)
              | None \<Rightarrow> ''no response'')),
      setupEffects @ attempts (configPost (the (apiKey env c0)) connection c) 5
        @ runCleanup env connection c,
      c)"
  using start_unfold [OF key conn] none readable
  by (auto simp: configureFailed_def split: option.splits)

lemma start_unreadable:
  assumes key: "truthyStr (apiKey env c0)"
    and conn: "resolveConnection env (resolveIds env c0) = (Inr connection, setupEffects, c)"
    and none: "firstSuccess (configResult env) = None"
    and last: "caught (configResult env 5) = Some r" "bodyText r = None"
  shows "start env c0 =
     (Inl BodyRejected,
      setupEffects @ attempts (configPost (the (apiKey env c0)) connection c) 5, c)"
  using start_unfold [OF key conn] none last by (simp add: configureFailed_def)

text \<open>
  C5 (retry budget), where the code departs from it. The platform provisions the sandbox
  \<open>sb-1\<close> and the configuration endpoint answers each of the five attempts with status
  503 and a body that cannot be read. \<open>start\<close> posts five times and then reads the body of
  the last response, before the cleanup and outside any \<open>try\<close>; the read rejects, so
  \<open>start\<close> throws that rejection and not the configuration error, sends no stop request,
  and leaves \<open>sb-1\<close> provisioned.
\<close>

theorem C5_unreadable_body_skips_cleanup:
  "fst (start unreadableEnv platformClient) = Inl BodyRejected \<and>
   length (configTargets (fst (snd (start unreadableEnv platformClient)))) = 5 \<and>
   provisioningRequests (fst (snd (start unreadableEnv platformClient))) =
     [''https://platform.example/sandbox/start''] \<and>
   stopRequestIds (fst (snd (start unreadableEnv platformClient))) = [] \<and>
   sandboxId (snd (snd (start unreadableEnv platformClient))) = Some ''sb-1''"
proof -
  let ?r = "\<lparr>ok = True, httpStatus = 200, bodyText = Some [], bodyJson = Some exampleDescriptor\<rparr>"
  let ?bad = "\<lparr>ok = False, httpStatus = 503, bodyText = None,
               bodyJson = None :: ConfigReply option\<rparr>"
  let ?c = "resolveIds unreadableEnv platformClient"
  let ?conn = "\<lparr>configUrl = platformBase (processEnv unreadableEnv) ?c @ ''/proxy/''
                    @ sandboxIdent exampleDescriptor @ ''/config'',
                 wsUrl = the (proxyUrl exampleDescriptor), authHeaders = None,
                 authParams = None, cleanup = True\<rparr>"
  let ?c1 = "?c\<lparr>sandboxId := Some (sandboxIdent exampleDescriptor)\<rparr>"
  have key: "truthyStr (apiKey unreadableEnv platformClient)"
    by (simp add: apiKey_def str_or_def truthyStr_def platformClient_def exampleOptions_def
        flakyEnv_def unreadableEnv_def)
  have conn: "resolveConnection unreadableEnv ?c =
     (Inr ?conn, [startRequest (processEnv unreadableEnv) ?c], ?c1)"
    by (rule resolveConnection_proxy [where r = ?r])
      (simp_all add: resolveIds_def str_or_def truthyStr_def platformClient_def
        exampleOptions_def flakyEnv_def unreadableEnv_def exampleDescriptor_def
        proxyEnabled_def)
  have none: "firstSuccess (configResult unreadableEnv) = None"
    by (simp add: firstSuccess_def find_None_iff unreadableEnv_def failed_def caught_def
        responseOk_def)
  have last: "caught (configResult unreadableEnv 5) = Some ?bad" "bodyText ?bad = None"
    by (simp_all add: unreadableEnv_def caught_def)
  note s = start_unreadable [OF key conn none last]
  have a: "fst (start unreadableEnv platformClient) = Inl BodyRejected"
    by (subst s) simp
  have b: "length (configTargets (fst (snd (start unreadableEnv platformClient)))) = 5"
    by (subst s) (simp add: configTargets_append attempts_targets startRequest_def)
  have c: "provisioningRequests (fst (snd (start unreadableEnv platformClient))) =
     [''https://platform.example/sandbox/start'']"
    by (subst s)
      (simp add: provisioningRequests_append attempts_targets startRequest_def platformBase_def
        resolveIds_def platformClient_def exampleOptions_def unreadableEnv_def flakyEnv_def
        str_or_def truthyStr_def orDefault_def stripTrailingSlash_def)
  have d: "stopRequestIds (fst (snd (start unreadableEnv platformClient))) = []"
    by (subst s) (simp add: stopRequestIds_append attempts_targets startRequest_def)
  have e: "sandboxId (snd (snd (start unreadableEnv platformClient))) = Some ''sb-1''"
    by (subst s) (simp add: exampleDescriptor_def)
  from a b c d e show ?thesis by blast
qed


lemma options_resolveIds [simp]: "options (resolveIds env c) = options c"
  by (simp add: resolveIds_def)

lemma local_connection:
  assumes "truthyStr (connectionUrl (options c0))"
  shows "resolveConnection env (resolveIds env c0) =
     (Inr \<lparr>configUrl =
              toHttpScheme (stripTrailingSlash (the (connectionUrl (options c0)))) @ ''/config'',
            wsUrl = toWsScheme (stripTrailingSlash (the (connectionUrl (options c0)))) @ ''/ws'',
            authHeaders = None, authParams = None, cleanup = False\<rparr>,
      [], resolveIds env c0)"
  using assms
  by (auto simp: resolveConnection_def setupLocalConnection_def Let_def orDefault_def
      truthyStr_def split: option.splits)

lemma flaky_token: "tokenRead (configResult flakyEnv) = Some ''t0''"
  and flaky_attempts: "attemptsMade (configResult flakyEnv) = 5"
  by (simp_all add: tokenRead_def attemptsMade_def firstSuccess_def flakyEnv_def failed_def
      caught_def responseOk_def truthyStr_def upt_rec)

text \<open>
  C6, as stated, fails: the endpoints are not the direct URL with its scheme substituted.
  For the direct URL \<open>ws://host/path?next=http://x\<close> the WebSocket is opened on
  \<open>ws://host/path?next=ws://x/ws\<close>: \<open>replace\<close> rewrote the URL inside the query, which
  the substitution of the scheme leaves as it is.
\<close>

theorem C6_scheme_substitution_counterexample:
  "webSockets (fst (snd (start flakyEnv queryClient))) =
     [\<lparr>wsBase = ''ws://host/path?next=ws://x/ws'', wsJoiner = ''&'',
       wsParams = [(''token'', ''t0'')]\<rparr>] \<and>
   specWsUrl ''ws://host/path?next=http://x'' = ''ws://host/path?next=http://x/ws''"
proof -
  have key: "truthyStr (apiKey flakyEnv queryClient)"
    by (simp add: apiKey_def str_or_def truthyStr_def platformClient_def queryClient_def
        exampleOptions_def flakyEnv_def)
  have local: "truthyStr (connectionUrl (options queryClient))"
    by (simp add: truthyStr_def queryClient_def)
  have "webSockets (fst (snd (start flakyEnv queryClient))) =
     [transportTarget
        \<lparr>configUrl =
           toHttpScheme (stripTrailingSlash (the (connectionUrl (options queryClient))))
             @ ''/config'',
         wsUrl =
           toWsScheme (stripTrailingSlash (the (connectionUrl (options queryClient)))) @ ''/ws'',
         authHeaders = None, authParams = None, cleanup = False\<rparr> ''t0'']"
    using start_observed(2) [OF key local_connection [OF local]] by (simp add: flaky_token)
  moreover have "toWsScheme (stripTrailingSlash (the (connectionUrl (options queryClient))))
      @ ''/ws'' = ''ws://host/path?next=ws://x/ws''"
    by (simp add: queryClient_def toWsScheme_def stripTrailingSlash_def)
  ultimately have "webSockets (fst (snd (start flakyEnv queryClient))) =
     [\<lparr>wsBase = ''ws://host/path?next=ws://x/ws'', wsJoiner = ''&'',
       wsParams = [(''token'', ''t0'')]\<rparr>]"
    by (simp add: transportTarget_def mergeHeaders_def)
  moreover have "specWsUrl ''ws://host/path?next=http://x'' = ''ws://host/path?next=http://x/ws''"
    by (simp add: specWsUrl_def substituteScheme_def)
  ultimately show ?thesis by blast
qed

text \<open>
  C6, amended (mode selection). With a direct URL that is not empty, \<open>start\<close> makes no
  provisioning request; if it has its API key it posts the configuration, once per
  attempt (at least once, at most five times), to the URL, less one trailing slash,
  after \<open>.replace('ws://', 'http://').replace('wss://', 'https://')\<close> and with \<open>/config\<close>
  appended, and when it reads a token it opens one WebSocket on the URL after
  \<open>.replace('http://', 'ws://').replace('https://', 'wss://')\<close> with \<open>/ws\<close> appended and the
  token as its query. Each \<open>replace\<close> rewrites the first occurrence of its pattern
  wherever it stands; for a URL of scheme http, https, ws or wss with no further \<open>://\<close>
  in it this substitutes the scheme and nothing else. Without a direct URL, with a
  client identifier, a successful provisioning response that carries a proxy URL and
  proxy use enabled (the default), the posts go to the platform's \<open>/proxy/<id>/config\<close>
  and the WebSocket is opened on the proxy URL; the sandbox's own URL appears in neither.
\<close>

theorem C6_mode_selection:
  "(truthyStr (connectionUrl (options c0)) \<longrightarrow>
      provisioningRequests (fst (snd (start env c0))) = [] \<and>
      configTargets (fst (snd (start env c0))) =
        (if truthyStr (apiKey env c0)
         then replicate (attemptsMade (configResult env))
                (toHttpScheme (stripTrailingSlash (the (connectionUrl (options c0))))
                   @ ''/config'')
         else []) \<and>
      webSockets (fst (snd (start env c0))) =
        (if truthyStr (apiKey env c0)
         then (case tokenRead (configResult env) of
                 Some token \<Rightarrow>
                   [transportTarget
                      \<lparr>configUrl =
                         toHttpScheme (stripTrailingSlash (the (connectionUrl (options c0))))
                           @ ''/config'',
                       wsUrl =
                         toWsScheme (stripTrailingSlash (the (connectionUrl (options c0))))
                           @ ''/ws'',
                       authHeaders = None, authParams = None, cleanup = False\<rparr>
                      token]
               | None \<Rightarrow> [])
         else [])) \<and>
   1 \<le> attemptsMade (configResult env) \<and> attemptsMade (configResult env) \<le> 5 \<and>
   (\<forall>rest. \<not> js_includes rest ''://'' \<longrightarrow>
      toHttpScheme (''http://'' @ rest) = ''http://'' @ rest \<and>
      toWsScheme (''http://'' @ rest) = ''ws://'' @ rest \<and>
      toHttpScheme (''https://'' @ rest) = ''https://'' @ rest \<and>
      toWsScheme (''https://'' @ rest) = ''wss://'' @ rest \<and>
      toHttpScheme (''ws://'' @ rest) = ''http://'' @ rest \<and>
      toWsScheme (''ws://'' @ rest) = ''ws://'' @ rest \<and>
      toHttpScheme (''wss://'' @ rest) = ''https://'' @ rest \<and>
      toWsScheme (''wss://'' @ rest) = ''wss://'' @ rest) \<and>
   (\<forall>r d. \<not> truthyStr (connectionUrl (options c0)) \<and>
           truthyStr (resolvedClientId (resolveIds env c0)) \<and>
           startSandboxResult env = Response r \<and> ok r \<and> bodyJson r = Some d \<and>
           proxyEnabled (processEnv env) c0 \<and> truthyStr (proxyUrl d) \<longrightarrow>
      configTargets (fst (snd (start env c0))) =
        (if truthyStr (apiKey env c0)
         then replicate (attemptsMade (configResult env))
                (platformBase (processEnv env) c0 @ ''/proxy/'' @ sandboxIdent d @ ''/config'')
         else []) \<and>
      webSockets (fst (snd (start env c0))) =
        (if truthyStr (apiKey env c0)
         then (case tokenRead (configResult env) of
                 Some token \<Rightarrow>
                   [transportTarget
                      \<lparr>configUrl =
                         platformBase (processEnv env) c0 @ ''/proxy/'' @ sandboxIdent d
                           @ ''/config'',
                       wsUrl = the (proxyUrl d),
                       authHeaders = None, authParams = None, cleanup = True\<rparr>
                      token]
               | None \<Rightarrow> [])
         else []))"
proof (intro conjI allI impI)
  assume local: "truthyStr (connectionUrl (options c0))"
  note conn = local_connection [OF local, of env]
  show "provisioningRequests (fst (snd (start env c0))) = []"
    using start_observed(3) [OF _ conn] start_no_key [of env c0]
    by (cases "truthyStr (apiKey env c0)") simp_all
  show "configTargets (fst (snd (start env c0))) =
        (if truthyStr (apiKey env c0)
         then replicate (attemptsMade (configResult env))
                (toHttpScheme (stripTrailingSlash (the (connectionUrl (options c0))))
                   @ ''/config'')
         else [])"
    using start_observed(1) [OF _ conn] start_no_key [of env c0]
    by (cases "truthyStr (apiKey env c0)") simp_all
  show "webSockets (fst (snd (start env c0))) =
        (if truthyStr (apiKey env c0)
         then (case tokenRead (configResult env) of
                 Some token \<Rightarrow>
                   [transportTarget
                      \<lparr>configUrl =
                         toHttpScheme (stripTrailingSlash (the (connectionUrl (options c0))))
                           @ ''/config'',
                       wsUrl =
                         toWsScheme (stripTrailingSlash (the (connectionUrl (options c0))))
                           @ ''/ws'',
                       authHeaders = None, authParams = None, cleanup = False\<rparr>
                      token]
               | None \<Rightarrow> [])
         else [])"
    using start_observed(2) [OF _ conn] start_no_key [of env c0]
    by (cases "truthyStr (apiKey env c0)") simp_all
next
  show "1 \<le> attemptsMade (configResult env)" "attemptsMade (configResult env) \<le> 5"
    using attemptsMade_bounds [of "configResult env"] by simp_all
next
  fix rest
  assume "\<not> js_includes rest ''://''"
  note s = scheme_substitution [OF this]
  show "toHttpScheme (''http://'' @ rest) = ''http://'' @ rest" by (rule s)
  show "toWsScheme (''http://'' @ rest) = ''ws://'' @ rest" by (rule s)
  show "toHttpScheme (''https://'' @ rest) = ''https://'' @ rest" by (rule s)
  show "toWsScheme (''https://'' @ rest) = ''wss://'' @ rest" by (rule s)
  show "toHttpScheme (''ws://'' @ rest) = ''http://'' @ rest" by (rule s)
  show "toWsScheme (''ws://'' @ rest) = ''ws://'' @ rest" by (rule s)
  show "toHttpScheme (''wss://'' @ rest) = ''https://'' @ rest" by (rule s)
  show "toWsScheme (''wss://'' @ rest) = ''wss://'' @ rest" by (rule s)
next
  fix r d
  assume h: "\<not> truthyStr (connectionUrl (options c0)) \<and>
            truthyStr (resolvedClientId (resolveIds env c0)) \<and>
            startSandboxResult env = Response r \<and> ok r \<and> bodyJson r = Some d \<and>
            proxyEnabled (processEnv env) c0 \<and> truthyStr (proxyUrl d)"
  let ?c = "resolveIds env c0"
  let ?conn = "\<lparr>configUrl = platformBase (processEnv env) c0 @ ''/proxy/'' @ sandboxIdent d
                   @ ''/config'',
                wsUrl = the (proxyUrl d), authHeaders = None, authParams = None,
                cleanup = True\<rparr>"
  have base: "platformBase (processEnv env) ?c = platformBase (processEnv env) c0"
    by (simp add: platformBase_def)
  from h have "\<not> truthyStr (connectionUrl (options ?c))" "truthyStr (resolvedClientId ?c)"
    "startSandboxResult env = Response r" "ok r" "bodyJson r = Some d"
    "proxyEnabled (processEnv env) ?c" "truthyStr (proxyUrl d)"
    by (simp_all add: proxyEnabled_def)
  from resolveConnection_proxy [OF this] have conn: "resolveConnection env ?c =
      (Inr ?conn, [startRequest (processEnv env) ?c], ?c\<lparr>sandboxId := Some (sandboxIdent d)\<rparr>)"
    unfolding base .
  show "configTargets (fst (snd (start env c0))) =
        (if truthyStr (apiKey env c0)
         then replicate (attemptsMade (configResult env))
                (platformBase (processEnv env) c0 @ ''/proxy/'' @ sandboxIdent d @ ''/config'')
         else [])"
    using start_observed(1) [OF _ conn] start_no_key [of env c0]
    by (cases "truthyStr (apiKey env c0)") simp_all
  show "webSockets (fst (snd (start env c0))) =
        (if truthyStr (apiKey env c0)
         then (case tokenRead (configResult env) of
                 Some token \<Rightarrow> [transportTarget ?conn token]
               | None \<Rightarrow> [])
         else [])"
    using start_observed(2) [OF _ conn] start_no_key [of env c0]
    by (cases "truthyStr (apiKey env c0)") simp_all
qed

theorem C6_mode_selection_witness:
  "provisioningRequests (fst (snd (start flakyEnv localClient))) = [] \<and>
   configTargets (fst (snd (start flakyEnv localClient))) =
     replicate 5 ''http://localhost:3000/config'' \<and>
   webSockets (fst (snd (start flakyEnv localClient))) =
     [\<lparr>wsBase = ''ws://localhost:3000/ws'', wsJoiner = ''?'',
       wsParams = [(''token'', ''t0'')]\<rparr>] \<and>
   toWsScheme (''https://'' @ ''sb-1.example'') = ''wss://'' @ ''sb-1.example'' \<and>
   configTargets (fst (snd (start flakyEnv platformClient))) =
     replicate 5 ''https://platform.example/proxy/sb-1/config'' \<and>
   webSockets (fst (snd (start flakyEnv platformClient))) =
     [\<lparr>wsBase = ''wss://platform.example/proxy/sb-1/ws'', wsJoiner = ''?'',
       wsParams = [(''token'', ''t0'')]\<rparr>]"
proof -
  let ?r = "\<lparr>ok = True, httpStatus = 200, bodyText = Some [], bodyJson = Some exampleDescriptor\<rparr>"
  have keyL: "truthyStr (apiKey flakyEnv localClient)"
    and keyP: "truthyStr (apiKey flakyEnv platformClient)"
    by (simp_all add: apiKey_def str_or_def truthyStr_def platformClient_def localClient_def
        exampleOptions_def flakyEnv_def)
  note L = C6_mode_selection [of localClient flakyEnv]
  note P = C6_mode_selection [of platformClient flakyEnv]
  have hL: "truthyStr (connectionUrl (options localClient))"
    by (simp add: truthyStr_def localClient_def)
  have hR: "\<not> js_includes ''sb-1.example'' ''://''" by simp
  have hP: "\<not> truthyStr (connectionUrl (options platformClient)) \<and>
            truthyStr (resolvedClientId (resolveIds flakyEnv platformClient)) \<and>
            startSandboxResult flakyEnv = Response ?r \<and> ok ?r \<and>
            bodyJson ?r = Some exampleDescriptor \<and>
            proxyEnabled (processEnv flakyEnv) platformClient \<and>
            truthyStr (proxyUrl exampleDescriptor)"
    by (simp add: resolveIds_def str_or_def truthyStr_def platformClient_def
        exampleOptions_def flakyEnv_def exampleDescriptor_def proxyEnabled_def)
  have uL: "toHttpScheme (stripTrailingSlash (the (connectionUrl (options localClient))))
              @ ''/config'' = ''http://localhost:3000/config''"
    "toWsScheme (stripTrailingSlash (the (connectionUrl (options localClient))))
              @ ''/ws'' = ''ws://localhost:3000/ws''"
    by (simp_all add: localClient_def toHttpScheme_def toWsScheme_def stripTrailingSlash_def)
  have uP: "platformBase (processEnv flakyEnv) platformClient @ ''/proxy/''
              @ sandboxIdent exampleDescriptor @ ''/config''
            = ''https://platform.example/proxy/sb-1/config''"
    "the (proxyUrl exampleDescriptor) = ''wss://platform.example/proxy/sb-1/ws''"
    by (simp_all add: platformBase_def platformClient_def exampleOptions_def flakyEnv_def
        exampleDescriptor_def str_or_def truthyStr_def orDefault_def stripTrailingSlash_def)
  note L1 = L [THEN conjunct1, rule_format, OF hL]
  note L4 = L [THEN conjunct2, THEN conjunct2, THEN conjunct2, THEN conjunct1, rule_format,
      OF hR]
  note P5 = P [THEN conjunct2, THEN conjunct2, THEN conjunct2, THEN conjunct2, rule_format,
      OF hP]
  from L1 have 1:
    "provisioningRequests (fst (snd (start flakyEnv localClient))) = []"
    "configTargets (fst (snd (start flakyEnv localClient))) =
       replicate 5 ''http://localhost:3000/config''"
    "webSockets (fst (snd (start flakyEnv localClient))) =
     [\<lparr>wsBase = ''ws://localhost:3000/ws'', wsJoiner = ''?'',
       wsParams = [(''token'', ''t0'')]\<rparr>]"
    unfolding uL
    by (simp_all add: keyL flaky_token flaky_attempts transportTarget_def mergeHeaders_def)
  from L4 have 2: "toWsScheme (''https://'' @ ''sb-1.example'') = ''wss://'' @ ''sb-1.example''"
    by blast
  from P5 have 3:
    "configTargets (fst (snd (start flakyEnv platformClient))) =
       replicate 5 ''https://platform.example/proxy/sb-1/config''"
    "webSockets (fst (snd (start flakyEnv platformClient))) =
     [\<lparr>wsBase = ''wss://platform.example/proxy/sb-1/ws'', wsJoiner = ''?'',
       wsParams = [(''token'', ''t0'')]\<rparr>]"
    unfolding uP
    by (simp_all add: keyP flaky_token flaky_attempts transportTarget_def mergeHeaders_def)
  from 1 2 3 show ?thesis by blast
qed

end
